theory Spec2Isabelle
  imports Complex_Main
begin

section \<open>Data model\<close>

text \<open>
  The wave solver stores every field as a \<open>std::vector<std::vector<double>>\<close> and the
  obstacle mask as a \<open>std::vector<std::vector<bool>>\<close>. A vector is a list; a
  \<open>double\<close> is modelled as a mathematical real (exact arithmetic: no rounding, no
  overflow, no NaN), which is the reading under which the stencil formulas of the
  specification are stated; the two statements that turn on rounding or overflow are made
  over IEEE 754 binary64 (section \<open>Binary64 arithmetic\<close>). Indices are the non-negative \<open>int\<close> loop counters of the
  source, modelled as \<open>nat\<close>: every loop bound \<open>N - 1\<close> is compared with a counter that
  starts at \<open>0\<close> or \<open>1\<close>, so truncated subtraction gives the same iterations, and the
  products \<open>9 * N\<close> and \<open>11 * N\<close> stay far below \<open>2^31\<close> for every \<open>N\<close> whose grid fits in
  memory. The grid dimension is a parameter \<open>n\<close> of every operation (the source reads
  the global constant \<open>N\<close>). An index outside a vector is undefined behaviour in the
  source; the statements below are about well-shaped grids, on which the source never
  leaves a vector.
\<close>

type_synonym field = "real list list"
type_synonym mask = "bool list list"

text \<open>The global constants shared by all variants of the solver.\<close>

definition N :: nat where
  "N = 256"

definition boxsize :: real where
  "boxsize = 1"

definition c :: real where
  "c = 1"

definition tEnd :: real where
  "tEnd = 2"

text \<open>The assignment \<open>g[i][j] = v\<close> on a vector of vectors.\<close>

definition assign2 :: "'a list list \<Rightarrow> nat \<Rightarrow> nat \<Rightarrow> 'a \<Rightarrow> 'a list list" where
  "assign2 g i j v = g[i := (g ! i)[j := v]]"

text \<open>A grid with \<open>r\<close> rows of \<open>cl\<close> columns each.\<close>

definition is_grid :: "nat \<Rightarrow> nat \<Rightarrow> 'a list list \<Rightarrow> bool" where
  "is_grid r cl g = (length g = r \<and> list_all (\<lambda>row. length row = cl) g)"

text \<open>\<open>std::vector<std::vector<T>> g(r, std::vector<T>(cl, v))\<close>\<close>

definition alloc :: "nat \<Rightarrow> nat \<Rightarrow> 'a \<Rightarrow> 'a list list" where
  "alloc r cl v = replicate r (replicate cl v)"

section \<open>Simulation parameters\<close>

text \<open>
  The locals \<open>dx\<close>, \<open>dt\<close> and \<open>fac\<close> that every \<open>main\<close> derives from the constants:
  \<open>dx = boxsize / N\<close>, \<open>dt = (std::sqrt(2)/2) * dx / c\<close> and
  \<open>fac = dt*dt * c*c / (dx*dx)\<close>, as functions of the box size, the grid dimension and
  the propagation speed.
\<close>

definition dx :: "real \<Rightarrow> nat \<Rightarrow> real" where
  "dx bsz n = bsz / real n"

definition dt :: "real \<Rightarrow> nat \<Rightarrow> real \<Rightarrow> real" where
  "dt bsz n spd = (sqrt 2 / 2) * dx bsz n / spd"

definition fac :: "real \<Rightarrow> nat \<Rightarrow> real \<Rightarrow> real" where
  "fac bsz n spd = dt bsz n spd * dt bsz n spd * spd * spd / (dx bsz n * dx bsz n)"

section \<open>Mask builder (serial, OpenMP and unit-test variants)\<close>

text \<open>
  \<open>initializeGrid\<close> of \<open>serial/main.cpp\<close> and \<open>unitTests/simulation.cpp\<close>, loop by loop.
  A \<open>for (int i = a; i < b; ++i)\<close> loop is a \<open>fold\<close> over \<open>[a..<b]\<close>.
\<close>

definition init_xlin :: "nat \<Rightarrow> real \<Rightarrow> real list \<Rightarrow> real list" where
  "init_xlin n bsz xlin =
     fold (\<lambda>i xs. xs[i := 0.5 * dx bsz n + real i * dx bsz n]) [0..<n] xlin"

text \<open>The two slit column ranges \<open>[5N/16, 3N/8)\<close> and \<open>[5N/8, 11N/16)\<close>.\<close>

definition in_slit :: "nat \<Rightarrow> nat \<Rightarrow> bool" where
  "in_slit n j =
     (5 * n div 16 \<le> j \<and> j < 3 * n div 8 \<or> 5 * n div 8 \<le> j \<and> j < 11 * n div 16)"

definition mark_edges :: "nat \<Rightarrow> mask \<Rightarrow> mask" where
  "mark_edges n m0 =
     fold (\<lambda>i m. assign2 (assign2 (assign2 (assign2 m 0 i True) (n - 1) i True) i 0 True)
                    i (n - 1) True)
       [0..<n] m0"

definition mark_barrier :: "nat \<Rightarrow> mask \<Rightarrow> mask" where
  "mark_barrier n m0 =
     fold (\<lambda>i m. fold (\<lambda>j m'. assign2 m' i j True) [0..<n - 1] m)
       [n div 4..<9 * n div 32] m0"

definition open_slits :: "nat \<Rightarrow> mask \<Rightarrow> mask" where
  "open_slits n m0 =
     fold (\<lambda>i m. fold (\<lambda>j m'. assign2 m' i j False) [5 * n div 8..<11 * n div 16]
                    (fold (\<lambda>j m'. assign2 m' i j False) [5 * n div 16..<3 * n div 8] m))
       [1..<n - 1] m0"

definition initializeGrid :: "nat \<Rightarrow> real \<Rightarrow> field \<Rightarrow> mask \<Rightarrow> real list \<Rightarrow> mask \<times> real list" where
  "initializeGrid n bsz U m0 xlin =
     (open_slits n (mark_barrier n (mark_edges n m0)), init_xlin n bsz xlin)"

text \<open>
  The mask of a run: \<open>main\<close> allocates an all-\<open>false\<close> \<open>n \<times> n\<close> mask and passes it to
  \<open>initializeGrid\<close>.
\<close>

definition build_mask :: "nat \<Rightarrow> mask" where
  "build_mask n = fst (initializeGrid n boxsize (alloc n n 0) (alloc n n False) (replicate n 0))"

section \<open>Stencil updater\<close>

text \<open>
  \<open>updateLaplacian\<close> of \<open>serial/main.cpp\<close> and \<open>unitTests/simulation.cpp\<close>. \<open>U\<close> is read
  only; the result is the new content of \<open>Unew\<close>. The source has no parameter for the
  previous time layer: the term subtracted from \<open>2.0 * U[i][j]\<close> is \<open>U[i][j]\<close> itself.
\<close>

definition updateLaplacian :: "nat \<Rightarrow> field \<Rightarrow> field \<Rightarrow> mask \<Rightarrow> real \<Rightarrow> field" where
  "updateLaplacian n U Unew0 msk fc =
     fold (\<lambda>i V. fold (\<lambda>j V'.
         if \<not> msk ! i ! j then
           (let ULX = U ! (i - 1) ! j;
                URX = U ! (i + 1) ! j;
                ULY = U ! i ! (j - 1);
                URY = U ! i ! (j + 1);
                laplacian = ULX + URX + ULY + URY - 4 * U ! i ! j
            in assign2 V' i j (2 * U ! i ! j - U ! i ! j + fc * laplacian))
         else V') [1..<n - 1] V)
       [1..<n - 1] Unew0"

text \<open>
  \<open>calculateLaplacian\<close> of \<open>mpi/main.cpp\<close>: the same loop nest over the \<open>local_N\<close> rows of
  a worker, with the previous layer \<open>Uprev\<close> as a parameter of its own.
\<close>

definition calculateLaplacian ::
  "nat \<Rightarrow> field \<Rightarrow> field \<Rightarrow> mask \<Rightarrow> field \<Rightarrow> real \<Rightarrow> nat \<Rightarrow> field" where
  "calculateLaplacian n U Uprev msk Unew0 fc local_N =
     fold (\<lambda>i V. fold (\<lambda>j V'.
         if \<not> msk ! i ! j then
           (let ULX = U ! i ! (j - 1);
                URX = U ! i ! (j + 1);
                ULY = U ! (i - 1) ! j;
                URY = U ! (i + 1) ! j;
                laplacian = ULX + URX + ULY + URY - 4 * U ! i ! j
            in assign2 V' i j (2 * U ! i ! j - Uprev ! i ! j + fc * laplacian))
         else V') [1..<n - 1] V)
       [1..<local_N - 1] Unew0"

text \<open>
  The two-layer scheme named in the design notes of the specification, written from its
  words: the next value of a non-masked interior cell is the current value plus \<open>fac\<close>
  times the five-point Laplacian; no previous layer is read.
\<close>

definition two_layer_cell :: "field \<Rightarrow> real \<Rightarrow> nat \<Rightarrow> nat \<Rightarrow> real" where
  "two_layer_cell U fc i j =
     U ! i ! j + fc * (U ! (i - 1) ! j + U ! (i + 1) ! j + U ! i ! (j - 1) + U ! i ! (j + 1)
                       - 4 * U ! i ! j)"

definition two_layer_update :: "nat \<Rightarrow> field \<Rightarrow> field \<Rightarrow> mask \<Rightarrow> real \<Rightarrow> field" where
  "two_layer_update n U Unew0 msk fc =
     fold (\<lambda>i V. fold (\<lambda>j V'.
         if \<not> msk ! i ! j then assign2 V' i j (two_layer_cell U fc i j) else V')
         [1..<n - 1] V)
       [1..<n - 1] Unew0"

text \<open>
  The three-layer leapfrog value of the stencil contract of the specification, for a cell
  \<open>(i, j)\<close> of the layers \<open>current\<close> and \<open>previous\<close>.
\<close>

definition leapfrog_cell :: "field \<Rightarrow> field \<Rightarrow> real \<Rightarrow> nat \<Rightarrow> nat \<Rightarrow> real" where
  "leapfrog_cell cur prv fc i j =
     2 * cur ! i ! j - prv ! i ! j +
     fc * (cur ! (i - 1) ! j + cur ! (i + 1) ! j + cur ! i ! (j - 1) + cur ! i ! (j + 1)
           - 4 * cur ! i ! j)"

section \<open>Boundary conditions\<close>

text \<open>
  The source term written on the source edge: \<open>sin(20\<pi>t) * pow(sin(\<pi> * xlin[i]), 2)\<close>.
\<close>

definition source :: "real \<Rightarrow> real list \<Rightarrow> nat \<Rightarrow> real" where
  "source t xlin i = sin (20 * pi * t) * (sin (pi * xlin ! i))\<^sup>2"

text \<open>The test of the first loop of \<open>applyBoundaryConditions\<close>, for the index \<open>i\<close>.\<close>

definition edge_cond :: "nat \<Rightarrow> mask \<Rightarrow> nat \<Rightarrow> bool" where
  "edge_cond n msk i = (msk ! i ! 0 \<or> msk ! i ! (n - 1) \<or> msk ! 0 ! i \<or> msk ! (n - 1) ! i)"

text \<open>
  \<open>applyBoundaryConditions\<close> of \<open>serial/main.cpp\<close> and \<open>unitTests/simulation.cpp\<close>, loop by
  loop. The chained assignment \<open>U[i][0] = U[i][N-1] = U[0][i] = U[N-1][i] = 0.0\<close> stores
  from right to left.
\<close>

definition zero_edges :: "nat \<Rightarrow> field \<Rightarrow> mask \<Rightarrow> field" where
  "zero_edges n U0 msk =
     fold (\<lambda>i U.
         if msk ! i ! 0 \<or> msk ! i ! (n - 1) \<or> msk ! 0 ! i \<or> msk ! (n - 1) ! i then
           assign2 (assign2 (assign2 (assign2 U (n - 1) i 0) 0 i 0) i (n - 1) 0) i 0 0
         else U)
       [0..<n] U0"

definition write_source :: "nat \<Rightarrow> field \<Rightarrow> real \<Rightarrow> real list \<Rightarrow> field" where
  "write_source n U0 t xlin = fold (\<lambda>i U. assign2 U 0 i (source t xlin i)) [0..<n] U0"

definition applyBoundaryConditions :: "nat \<Rightarrow> field \<Rightarrow> mask \<Rightarrow> real \<Rightarrow> real list \<Rightarrow> field" where
  "applyBoundaryConditions n U msk t xlin = write_source n (zero_edges n U msk) t xlin"

section \<open>Time-stepping driver (serial)\<close>

text \<open>
  The state of \<open>main\<close> of \<open>serial/main.cpp\<close>: the three layers, the time, and the
  standard output, to which every step appends the new time.
\<close>

record sim_state =
  s_U :: field
  s_Uprev :: field
  s_Unew :: field
  s_t :: real
  s_out :: "real list"

text \<open>The part of \<open>main\<close> before the loop.\<close>

definition init_state :: "nat \<Rightarrow> sim_state" where
  "init_state n =
     \<lparr>s_U = alloc n n 0, s_Uprev = alloc n n 0, s_Unew = alloc n n 0, s_t = 0, s_out = []\<rparr>"

text \<open>One iteration of the \<open>while\<close> loop.\<close>

definition step :: "nat \<Rightarrow> mask \<Rightarrow> real list \<Rightarrow> real \<Rightarrow> real \<Rightarrow> sim_state \<Rightarrow> sim_state" where
  "step n msk xlin fc h s =
     (let Unew' = updateLaplacian n (s_U s) (s_Unew s) msk fc;
          Uprev' = s_U s;
          U' = applyBoundaryConditions n Unew' msk (s_t s) xlin;
          t' = s_t s + h
      in \<lparr>s_U = U', s_Uprev = Uprev', s_Unew = Unew', s_t = t', s_out = s_out s @ [t']\<rparr>)"

text \<open>
  \<open>while (t < tEnd) { ... }\<close>. Nothing in the source bounds the number of iterations, so
  the loop is a partial function: \<open>None\<close> is a run that never leaves the loop.
\<close>

partial_function (option) main_loop ::
  "nat \<Rightarrow> mask \<Rightarrow> real list \<Rightarrow> real \<Rightarrow> real \<Rightarrow> real \<Rightarrow> sim_state \<Rightarrow> sim_state option" where
  "main_loop n msk xlin fc h tend s =
     (if s_t s < tend then main_loop n msk xlin fc h tend (step n msk xlin fc h s) else Some s)"

definition run :: "nat \<Rightarrow> real \<Rightarrow> real \<Rightarrow> real \<Rightarrow> sim_state option" where
  "run n bsz spd tend =
     (let (msk, xlin) = initializeGrid n bsz (alloc n n 0) (alloc n n False) (replicate n 0)
      in main_loop n msk xlin (fac bsz n spd) (dt bsz n spd) tend (init_state n))"

definition main :: "sim_state option" where
  "main = run N boxsize c tEnd"

section \<open>Notions of the statements\<close>

text \<open>
  The field of the locality test of the specification: zero everywhere except the value
  \<open>v\<close> at cell \<open>(i0, j0)\<close>; and the number of grid steps between two cells.
\<close>

definition impulse :: "nat \<Rightarrow> nat \<Rightarrow> nat \<Rightarrow> real \<Rightarrow> field" where
  "impulse n i0 j0 v = assign2 (alloc n n 0) i0 j0 v"

definition grid_dist :: "nat \<Rightarrow> nat \<Rightarrow> nat \<Rightarrow> nat \<Rightarrow> nat" where
  "grid_dist i j i0 j0 = (if i0 \<le> i then i - i0 else i0 - i) + (if j0 \<le> j then j - j0 else j0 - j)"

text \<open>An interior cell of the \<open>r \<times> n\<close> index range of a stencil loop nest.\<close>

definition interior :: "nat \<Rightarrow> nat \<Rightarrow> nat \<Rightarrow> nat \<Rightarrow> bool" where
  "interior r n i j = (1 \<le> i \<and> i < r - 1 \<and> 1 \<le> j \<and> j < n - 1)"

section \<open>Distributed variant\<close>

text \<open>
  \<open>mpi/main.cpp\<close>. Every process runs the same \<open>main\<close> with its own \<open>rank\<close>; \<open>size\<close>,
  written \<open>sz\<close>, is the number of processes (at least one under MPI). Two functions share
  their names with the serial ones and carry the suffix \<open>_mpi\<close> here.
\<close>

definition initializeGrid_mpi ::
  "nat \<Rightarrow> real \<Rightarrow> field \<Rightarrow> mask \<Rightarrow> real list \<Rightarrow> nat \<Rightarrow> mask \<times> real list" where
  "initializeGrid_mpi n bsz U m0 xlin local_N =
     (fold (\<lambda>i m. assign2 (assign2 m i 0 True) i (n - 1) True) [0..<local_N] m0,
      init_xlin n bsz xlin)"

definition applyBoundaryConditions_mpi ::
  "nat \<Rightarrow> field \<Rightarrow> mask \<Rightarrow> real list \<Rightarrow> real \<Rightarrow> nat \<Rightarrow> field" where
  "applyBoundaryConditions_mpi n U0 msk xlin t local_N =
     fold (\<lambda>i U. assign2 U i 0 (source t xlin i)) [0..<local_N]
       (fold (\<lambda>i U. assign2 (assign2 U i (n - 1) 0) i 0 0) [0..<local_N] U0)"

text \<open>The locals of a process: its band, its arrays and its clock.\<close>

record worker =
  w_local_N :: nat
  w_start_row :: nat
  w_end_row :: nat
  w_mask :: mask
  w_xlin :: "real list"
  w_U :: field
  w_Uprev :: field
  w_Unew :: field
  w_t :: real

text \<open>\<open>main\<close> up to the loop (lines 97 to 115).\<close>

definition init_worker :: "nat \<Rightarrow> real \<Rightarrow> nat \<Rightarrow> nat \<Rightarrow> worker" where
  "init_worker n bsz sz rank =
     (let lN = n div sz;
          (msk, xlin) = initializeGrid_mpi n bsz (alloc lN n 0) (alloc lN n False)
                          (replicate n 0) lN
      in \<lparr>w_local_N = lN, w_start_row = rank * lN, w_end_row = (rank + 1) * lN,
          w_mask = msk, w_xlin = xlin,
          w_U = alloc lN n 0, w_Uprev = alloc lN n 0, w_Unew = alloc lN n 0, w_t = 0\<rparr>)"

text \<open>One iteration of the loop of a process (lines 117 to 128).\<close>

definition step_worker :: "nat \<Rightarrow> real \<Rightarrow> real \<Rightarrow> worker \<Rightarrow> worker" where
  "step_worker n fc h w =
     (let Unew' = calculateLaplacian n (w_U w) (w_Uprev w) (w_mask w) (w_Unew w) fc (w_local_N w);
          Uprev' = w_U w;
          U' = applyBoundaryConditions_mpi n Unew' (w_mask w) (w_xlin w) (w_t w) (w_local_N w)
      in w\<lparr>w_U := U', w_Uprev := Uprev', w_Unew := Unew', w_t := w_t w + h\<rparr>)"

text \<open>
  The processes of a run, by rank. The loop body calls no MPI operation, so a time step
  of the whole system is a time step of every process on its own locals.
\<close>

definition init_system :: "nat \<Rightarrow> real \<Rightarrow> nat \<Rightarrow> worker list" where
  "init_system n bsz sz = map (init_worker n bsz sz) [0..<sz]"

definition step_system :: "nat \<Rightarrow> real \<Rightarrow> real \<Rightarrow> worker list \<Rightarrow> worker list" where
  "step_system n fc h ws = map (step_worker n fc h) ws"

text \<open>The rows of the global grid that belong to some process.\<close>

definition owned_rows :: "nat \<Rightarrow> real \<Rightarrow> nat \<Rightarrow> nat set" where
  "owned_rows n bsz sz =
     (\<Union>w \<in> set (init_system n bsz sz). {w_start_row w..<w_end_row w})"

text \<open>
  The global mask of a partitioned run, from the words of the specification: the masks of
  the workers, each restricted to its owned rows, stacked in rank order.
\<close>

definition assembled_mask :: "nat \<Rightarrow> real \<Rightarrow> nat \<Rightarrow> mask" where
  "assembled_mask n bsz sz =
     concat (map (\<lambda>w. take (w_end_row w - w_start_row w) (w_mask w)) (init_system n bsz sz))"

text \<open>The processes of a run after \<open>k\<close> iterations of their loops.\<close>

definition run_system :: "nat \<Rightarrow> real \<Rightarrow> real \<Rightarrow> nat \<Rightarrow> nat \<Rightarrow> worker list" where
  "run_system n bsz spd sz k =
     (step_system n (fac bsz n spd) (dt bsz n spd) ^^ k) (init_system n bsz sz)"

text \<open>The invariant of the loop of a process, after \<open>k\<close> iterations: the number of rows, the
  coordinates, the time, the shapes, and the zeros of the first and the last row.\<close>

definition band_inv :: "nat \<Rightarrow> real \<Rightarrow> nat \<Rightarrow> real \<Rightarrow> nat \<Rightarrow> worker \<Rightarrow> bool" where
  "band_inv n bsz sz h k w =
     (w_local_N w = n div sz \<and> w_xlin w = init_xlin n bsz (replicate n 0) \<and>
      w_t w = real k * h \<and>
      is_grid (n div sz) n (w_U w) \<and> is_grid (n div sz) n (w_Unew w) \<and>
      (\<forall>i<n div sz. \<forall>j<n. (i = 0 \<or> i = n div sz - 1) \<and> 1 \<le> j \<and> j < n - 1 \<longrightarrow>
          w_Unew w ! i ! j = 0 \<and> w_U w ! i ! j = 0))"

section \<open>Binary64 arithmetic\<close>




















section \<open>Grids and loops\<close>

lemma is_grid_iff: "is_grid r cl g \<longleftrightarrow> length g = r \<and> (\<forall>i<r. length (g ! i) = cl)"
  by (auto simp: is_grid_def list_all_length)

lemma is_grid_alloc: "is_grid r cl (alloc r cl v)"
  by (simp add: is_grid_iff alloc_def)

lemma nth_alloc: "i < r \<Longrightarrow> j < cl \<Longrightarrow> alloc r cl v ! i ! j = v"
  by (simp add: alloc_def)

lemma is_grid_assign2: "is_grid r cl g \<Longrightarrow> is_grid r cl (assign2 g i j v)"
  by (cases "i < length g") (auto simp: is_grid_iff assign2_def nth_list_update)

lemma nth_assign2:
  "is_grid r cl g \<Longrightarrow> i' < r \<Longrightarrow> j' < cl \<Longrightarrow>
   assign2 g i j v ! i' ! j' = (if i' = i \<and> j' = j then v else g ! i' ! j')"
  by (cases "i < length g") (auto simp: is_grid_iff assign2_def nth_list_update)

text \<open>The invariant rule of a \<open>for\<close> loop from \<open>a\<close> up to \<open>b\<close>.\<close>

lemma fold_upt_invariant:
  assumes "a \<le> b" and "P a s"
    and "\<And>k s'. a \<le> k \<Longrightarrow> k < b \<Longrightarrow> P k s' \<Longrightarrow> P (Suc k) (F k s')"
  shows "P b (fold F [a..<b] s)"
proof -
  have "k \<le> b \<Longrightarrow> P k (fold F [a..<k] s)" if "a \<le> k" for k
    using that
  proof (induction k rule: dec_induct)
    case base
    then show ?case using assms(2) by simp
  next
    case (step k)
    then show ?case using assms(3)[of k "fold F [a..<k] s"] by simp
  qed
  then show ?thesis using assms(1) by simp
qed

text \<open>A loop over the columns \<open>a..<b\<close> of row \<open>i\<close> that stores \<open>v j\<close> where \<open>p j\<close> holds.\<close>

lemma loop_row:
  assumes "is_grid r cl g"
  shows "is_grid r cl (fold (\<lambda>j m. if p j then assign2 m i j (v j) else m) [a..<b] g) \<and>
         (\<forall>i'<r. \<forall>j'<cl. fold (\<lambda>j m. if p j then assign2 m i j (v j) else m) [a..<b] g ! i' ! j' =
            (if i' = i \<and> a \<le> j' \<and> j' < b \<and> p j' then v j' else g ! i' ! j'))"
proof (cases "a \<le> b")
  case True
  show ?thesis
    by (rule fold_upt_invariant[where P = "\<lambda>k m. is_grid r cl m \<and>
         (\<forall>i'<r. \<forall>j'<cl. m ! i' ! j' =
            (if i' = i \<and> a \<le> j' \<and> j' < k \<and> p j' then v j' else g ! i' ! j'))", OF True])
       (auto simp: assms is_grid_assign2 nth_assign2 less_Suc_eq)
next
  case False
  then show ?thesis using assms by auto
qed

lemma fill_row:
  assumes "is_grid r cl g"
  shows "is_grid r cl (fold (\<lambda>j m. assign2 m i j v) [a..<b] g) \<and>
         (\<forall>i'<r. \<forall>j'<cl. fold (\<lambda>j m. assign2 m i j v) [a..<b] g ! i' ! j' =
            (if i' = i \<and> a \<le> j' \<and> j' < b then v else g ! i' ! j'))"
  using loop_row[OF assms, of "\<lambda>_. True" i "\<lambda>_. v" a b] by simp

text \<open>A loop over the rows \<open>a..<b\<close> whose body rewrites cells of its own row only.\<close>

lemma loop_rows:
  assumes g: "is_grid r cl g"
    and body: "\<And>i m. is_grid r cl m \<Longrightarrow> is_grid r cl (F i m) \<and>
         (\<forall>i'<r. \<forall>j'<cl. F i m ! i' ! j' = (if i' = i \<and> p i j' then v i j' else m ! i' ! j'))"
  shows "is_grid r cl (fold F [a..<b] g) \<and>
         (\<forall>i'<r. \<forall>j'<cl. fold F [a..<b] g ! i' ! j' =
            (if a \<le> i' \<and> i' < b \<and> p i' j' then v i' j' else g ! i' ! j'))"
proof (cases "a \<le> b")
  case True
  show ?thesis
    by (rule fold_upt_invariant[where P = "\<lambda>k m. is_grid r cl m \<and>
         (\<forall>i'<r. \<forall>j'<cl. m ! i' ! j' =
            (if a \<le> i' \<and> i' < k \<and> p i' j' then v i' j' else g ! i' ! j'))", OF True])
       (auto simp: g body less_Suc_eq)
next
  case False
  then show ?thesis using g by auto
qed

section \<open>The mask, cell by cell\<close>

lemma mark_edges_body:
  assumes "is_grid n n m" "i' < n" "j' < n"
  shows "assign2 (assign2 (assign2 (assign2 m 0 i True) (n - 1) i True) i 0 True) i (n - 1) True
           ! i' ! j' =
         (m ! i' ! j' \<or> (i' = 0 \<or> i' = n - 1) \<and> j' = i \<or> (j' = 0 \<or> j' = n - 1) \<and> i' = i)"
proof -
  let ?m1 = "assign2 m 0 i True"
  let ?m2 = "assign2 ?m1 (n - 1) i True"
  let ?m3 = "assign2 ?m2 i 0 True"
  have g1: "is_grid n n ?m1" using assms(1) by (rule is_grid_assign2)
  have g2: "is_grid n n ?m2" using g1 by (rule is_grid_assign2)
  have g3: "is_grid n n ?m3" using g2 by (rule is_grid_assign2)
  have c1: "?m1 ! i' ! j' = (m ! i' ! j' \<or> i' = 0 \<and> j' = i)"
    using nth_assign2[OF assms, of 0 i True] by auto
  have c2: "?m2 ! i' ! j' = (?m1 ! i' ! j' \<or> i' = n - 1 \<and> j' = i)"
    using nth_assign2[OF g1 assms(2,3), of "n - 1" i True] by auto
  have c3: "?m3 ! i' ! j' = (?m2 ! i' ! j' \<or> i' = i \<and> j' = 0)"
    using nth_assign2[OF g2 assms(2,3), of i 0 True] by auto
  have c4: "assign2 ?m3 i (n - 1) True ! i' ! j' = (?m3 ! i' ! j' \<or> i' = i \<and> j' = n - 1)"
    using nth_assign2[OF g3 assms(2,3), of i "n - 1" True] by auto
  show ?thesis
    unfolding c4 c3 c2 c1 by blast
qed

lemma mark_edges_cell:
  assumes "is_grid n n m0"
  shows "is_grid n n (mark_edges n m0) \<and>
         (\<forall>i<n. \<forall>j<n. mark_edges n m0 ! i ! j =
            (m0 ! i ! j \<or> i = 0 \<or> i = n - 1 \<or> j = 0 \<or> j = n - 1))"
proof -
  let ?F = "\<lambda>i m. assign2 (assign2 (assign2 (assign2 m 0 i True) (n - 1) i True) i 0 True)
                    i (n - 1) True"
  let ?P = "\<lambda>k m. is_grid n n m \<and>
         (\<forall>i<n. \<forall>j<n. m ! i ! j = (m0 ! i ! j \<or> ((i = 0 \<or> i = n - 1) \<and> j < k) \<or>
             ((j = 0 \<or> j = n - 1) \<and> i < k)))"
  have "?P n (fold ?F [0..<n] m0)"
  proof (rule fold_upt_invariant[where P = ?P])
    show "?P 0 m0" using assms by simp
  next
    fix k m assume "k < n" and P: "?P k m"
    from P have gm: "is_grid n n m" by (rule conjunct1)
    have gF: "is_grid n n (?F k m)"
      by (intro is_grid_assign2 gm)
    have "?F k m ! i ! j = (m0 ! i ! j \<or> ((i = 0 \<or> i = n - 1) \<and> j < Suc k) \<or>
             ((j = 0 \<or> j = n - 1) \<and> i < Suc k))" if ij: "i < n" "j < n" for i j
    proof -
      from P ij have old: "m ! i ! j = (m0 ! i ! j \<or> ((i = 0 \<or> i = n - 1) \<and> j < k) \<or>
             ((j = 0 \<or> j = n - 1) \<and> i < k))" by blast
      show ?thesis
        unfolding mark_edges_body[OF gm ij] old less_Suc_eq by blast
    qed
    with gF show "?P (Suc k) (?F k m)" by blast
  qed simp
  then have g: "is_grid n n (mark_edges n m0)"
    and cell: "\<And>i j. i < n \<Longrightarrow> j < n \<Longrightarrow> mark_edges n m0 ! i ! j =
      (m0 ! i ! j \<or> ((i = 0 \<or> i = n - 1) \<and> j < n) \<or> ((j = 0 \<or> j = n - 1) \<and> i < n))"
    unfolding mark_edges_def by blast+
  show ?thesis
  proof (intro conjI allI impI)
    fix i j assume "i < n" "j < n"
    then show "mark_edges n m0 ! i ! j = (m0 ! i ! j \<or> i = 0 \<or> i = n - 1 \<or> j = 0 \<or> j = n - 1)"
      using cell[of i j] by blast
  qed (rule g)
qed

lemma mark_barrier_cell:
  assumes "is_grid n n m0"
  shows "is_grid n n (mark_barrier n m0) \<and>
         (\<forall>i<n. \<forall>j<n. mark_barrier n m0 ! i ! j =
            (if n div 4 \<le> i \<and> i < 9 * n div 32 \<and> j < n - 1 then True else m0 ! i ! j))"
  unfolding mark_barrier_def
proof (rule loop_rows[OF assms])
  fix i m assume "is_grid n n (m::mask)"
  then show "is_grid n n (fold (\<lambda>j m'. assign2 m' i j True) [0..<n - 1] m) \<and>
     (\<forall>i'<n. \<forall>j'<n. fold (\<lambda>j m'. assign2 m' i j True) [0..<n - 1] m ! i' ! j' =
        (if i' = i \<and> j' < n - 1 then True else m ! i' ! j'))"
    using fill_row[of n n m i True 0 "n - 1"] by simp
qed

lemma open_slits_cell:
  assumes "is_grid n n m0"
  shows "is_grid n n (open_slits n m0) \<and>
         (\<forall>i<n. \<forall>j<n. open_slits n m0 ! i ! j =
            (if 1 \<le> i \<and> i < n - 1 \<and> in_slit n j then False else m0 ! i ! j))"
  unfolding open_slits_def
proof (rule loop_rows[OF assms])
  fix i m assume m: "is_grid n n (m::mask)"
  let ?m1 = "fold (\<lambda>j m'. assign2 m' i j False) [5 * n div 16..<3 * n div 8] m"
  let ?m2 = "fold (\<lambda>j m'. assign2 m' i j False) [5 * n div 8..<11 * n div 16] ?m1"
  note s1 = fill_row[OF m, of i False "5 * n div 16" "3 * n div 8"]
  note s2 = fill_row[OF s1[THEN conjunct1], of i False "5 * n div 8" "11 * n div 16"]
  show "is_grid n n ?m2 \<and>
     (\<forall>i'<n. \<forall>j'<n. ?m2 ! i' ! j' = (if i' = i \<and> in_slit n j' then False else m ! i' ! j'))"
    using s1 s2 by (auto simp: in_slit_def)
qed

lemma is_grid_build_mask: "is_grid n n (build_mask n)"
  using open_slits_cell[OF mark_barrier_cell[OF mark_edges_cell[OF is_grid_alloc[of n n False],
          THEN conjunct1], THEN conjunct1]]
  by (simp add: build_mask_def initializeGrid_def)

lemma build_mask_cell:
  assumes "i < n" "j < n"
  shows "build_mask n ! i ! j =
    (if 1 \<le> i \<and> i < n - 1 \<and> in_slit n j then False
     else (n div 4 \<le> i \<and> i < 9 * n div 32 \<and> j < n - 1) \<or>
          i = 0 \<or> i = n - 1 \<or> j = 0 \<or> j = n - 1)"
proof -
  note e = mark_edges_cell[OF is_grid_alloc[of n n False]]
  note b = mark_barrier_cell[OF e[THEN conjunct1]]
  note s = open_slits_cell[OF b[THEN conjunct1]]
  show ?thesis
    using assms e b s by (auto simp: build_mask_def initializeGrid_def nth_alloc)
qed

section \<open>The stencil loop nests, cell by cell\<close>

lemma stencil_nest:
  assumes g: "is_grid r cl g"
  shows "is_grid r cl (fold (\<lambda>i V. fold (\<lambda>j V'. if q i j then assign2 V' i j (v i j) else V')
                                    [a'..<b'] V) [a..<b] g) \<and>
    (\<forall>i<r. \<forall>j<cl. fold (\<lambda>i V. fold (\<lambda>j V'. if q i j then assign2 V' i j (v i j) else V')
                                    [a'..<b'] V) [a..<b] g ! i ! j =
       (if a \<le> i \<and> i < b \<and> (a' \<le> j \<and> j < b' \<and> q i j) then v i j else g ! i ! j))"
proof (rule loop_rows[OF g])
  fix i and m :: "'a list list"
  assume m: "is_grid r cl m"
  show "is_grid r cl (fold (\<lambda>j V'. if q i j then assign2 V' i j (v i j) else V') [a'..<b'] m) \<and>
     (\<forall>i'<r. \<forall>j'<cl. fold (\<lambda>j V'. if q i j then assign2 V' i j (v i j) else V') [a'..<b'] m ! i' ! j' =
        (if i' = i \<and> (a' \<le> j' \<and> j' < b' \<and> q i j') then v i j' else m ! i' ! j'))"
    using loop_row[OF m, of "q i" i "v i" a' b'] by simp
qed

lemma updateLaplacian_nest:
  "updateLaplacian n U Unew0 msk fc =
     fold (\<lambda>i V. fold (\<lambda>j V'. if \<not> msk ! i ! j then assign2 V' i j (two_layer_cell U fc i j) else V')
                     [1..<n - 1] V) [1..<n - 1] Unew0"
  unfolding updateLaplacian_def two_layer_cell_def Let_def
  by (simp cong del: if_weak_cong)

lemma calculateLaplacian_nest:
  "calculateLaplacian n U Uprev msk Unew0 fc lN =
     fold (\<lambda>i V. fold (\<lambda>j V'. if \<not> msk ! i ! j then assign2 V' i j (leapfrog_cell U Uprev fc i j) else V')
                     [1..<n - 1] V) [1..<lN - 1] Unew0"
  unfolding calculateLaplacian_def leapfrog_cell_def Let_def
  by (simp cong del: if_weak_cong add: add.commute add.left_commute)

lemma updateLaplacian_cell:
  assumes "is_grid r cl Unew0" "i < r" "j < cl"
  shows "updateLaplacian n U Unew0 msk fc ! i ! j =
       (if interior n n i j \<and> \<not> msk ! i ! j then two_layer_cell U fc i j else Unew0 ! i ! j)"
  unfolding updateLaplacian_nest interior_def
  using stencil_nest[OF assms(1), of "\<lambda>i j. \<not> msk ! i ! j" "two_layer_cell U fc" 1 "n - 1" 1 "n - 1"]
    assms(2,3)
  by simp

lemma is_grid_updateLaplacian:
  assumes "is_grid r cl Unew0"
  shows "is_grid r cl (updateLaplacian n U Unew0 msk fc)"
  unfolding updateLaplacian_nest
  using stencil_nest[OF assms(1), of "\<lambda>i j. \<not> msk ! i ! j" "two_layer_cell U fc" 1 "n - 1" 1 "n - 1"]
  by simp

lemma calculateLaplacian_cell:
  assumes "is_grid r cl Unew0" "i < r" "j < cl"
  shows "calculateLaplacian n U Uprev msk Unew0 fc lN ! i ! j =
       (if interior lN n i j \<and> \<not> msk ! i ! j then leapfrog_cell U Uprev fc i j else Unew0 ! i ! j)"
  unfolding calculateLaplacian_nest interior_def
  using stencil_nest[OF assms(1), of "\<lambda>i j. \<not> msk ! i ! j" "leapfrog_cell U Uprev fc" 1 "n - 1" 1 "lN - 1"]
    assms(2,3)
  by simp

lemma is_grid_calculateLaplacian:
  assumes "is_grid r cl Unew0"
  shows "is_grid r cl (calculateLaplacian n U Uprev msk Unew0 fc lN)"
  unfolding calculateLaplacian_nest
  using stencil_nest[OF assms(1), of "\<lambda>i j. \<not> msk ! i ! j" "leapfrog_cell U Uprev fc" 1 "n - 1" 1 "lN - 1"]
  by simp

lemma nth_impulse:
  "a < n \<Longrightarrow> b < n \<Longrightarrow> impulse n i0 j0 v ! a ! b = (if a = i0 \<and> b = j0 then v else 0)"
  by (simp add: impulse_def nth_assign2[OF is_grid_alloc] nth_alloc)

lemma fac_half: "0 < n \<Longrightarrow> bsz \<noteq> 0 \<Longrightarrow> spd \<noteq> 0 \<Longrightarrow> fac bsz n spd = 1 / 2"
  by (simp add: fac_def dt_def dx_def field_simps)

lemma fac_const: "fac boxsize N c = 1 / 2"
  by (simp add: fac_half boxsize_def N_def c_def)

section \<open>Coordinates and boundary conditions, cell by cell\<close>

lemma init_xlin_nth:
  assumes "length xlin = n" "i < n"
  shows "init_xlin n bsz xlin ! i = 0.5 * dx bsz n + real i * dx bsz n"
proof -
  let ?F = "\<lambda>i xs. xs[i := 0.5 * dx bsz n + real i * dx bsz n]"
  let ?P = "\<lambda>k xs. length xs = n \<and>
     (\<forall>i<n. xs ! i = (if i < k then 0.5 * dx bsz n + real i * dx bsz n else xlin ! i))"
  have "?P n (fold ?F [0..<n] xlin)"
    by (rule fold_upt_invariant[where P = ?P]) (auto simp: assms nth_list_update less_Suc_eq)
  then show ?thesis
    using assms by (simp add: init_xlin_def)
qed

lemma length_init_xlin: "length xlin = n \<Longrightarrow> length (init_xlin n bsz xlin) = n"
proof -
  assume a: "length xlin = n"
  have "length (fold (\<lambda>i xs. xs[i := 0.5 * dx bsz n + real i * dx bsz n]) [0..<n] xlin) = n"
    by (rule fold_upt_invariant[where P = "\<lambda>k xs. length xs = n"]) (simp_all add: a)
  then show ?thesis by (simp add: init_xlin_def)
qed

lemma assign2_four:
  assumes "is_grid r cl m" "i' < r" "j' < cl"
  shows "assign2 (assign2 (assign2 (assign2 m a1 b1 v) a2 b2 v) a3 b3 v) a4 b4 v ! i' ! j' =
         (if i' = a1 \<and> j' = b1 \<or> i' = a2 \<and> j' = b2 \<or> i' = a3 \<and> j' = b3 \<or> i' = a4 \<and> j' = b4
          then v else m ! i' ! j')"
proof -
  let ?m1 = "assign2 m a1 b1 v"
  let ?m2 = "assign2 ?m1 a2 b2 v"
  let ?m3 = "assign2 ?m2 a3 b3 v"
  have g1: "is_grid r cl ?m1" using assms(1) by (rule is_grid_assign2)
  have g2: "is_grid r cl ?m2" using g1 by (rule is_grid_assign2)
  have g3: "is_grid r cl ?m3" using g2 by (rule is_grid_assign2)
  have c1: "?m1 ! i' ! j' = (if i' = a1 \<and> j' = b1 then v else m ! i' ! j')"
    by (rule nth_assign2[OF assms])
  have c2: "?m2 ! i' ! j' = (if i' = a2 \<and> j' = b2 then v else ?m1 ! i' ! j')"
    by (rule nth_assign2[OF g1 assms(2,3)])
  have c3: "?m3 ! i' ! j' = (if i' = a3 \<and> j' = b3 then v else ?m2 ! i' ! j')"
    by (rule nth_assign2[OF g2 assms(2,3)])
  have c4: "assign2 ?m3 a4 b4 v ! i' ! j' = (if i' = a4 \<and> j' = b4 then v else ?m3 ! i' ! j')"
    by (rule nth_assign2[OF g3 assms(2,3)])
  show ?thesis
    unfolding c4 c3 c2 c1 by auto
qed

lemma zero_edges_cell:
  assumes "is_grid n n U0"
  shows "is_grid n n (zero_edges n U0 msk) \<and>
     (\<forall>i<n. \<forall>j<n. zero_edges n U0 msk ! i ! j =
        (if (i = n - 1 \<or> i = 0) \<and> edge_cond n msk j \<or> (j = n - 1 \<or> j = 0) \<and> edge_cond n msk i
         then 0 else U0 ! i ! j))"
proof -
  let ?F = "\<lambda>i U. if msk ! i ! 0 \<or> msk ! i ! (n - 1) \<or> msk ! 0 ! i \<or> msk ! (n - 1) ! i then
           assign2 (assign2 (assign2 (assign2 U (n - 1) i 0) 0 i 0) i (n - 1) 0) i 0 0
         else U"
  let ?P = "\<lambda>k U. is_grid n n U \<and>
     (\<forall>i<n. \<forall>j<n. U ! i ! j =
        (if (i = n - 1 \<or> i = 0) \<and> j < k \<and> edge_cond n msk j \<or>
            (j = n - 1 \<or> j = 0) \<and> i < k \<and> edge_cond n msk i
         then (0::real) else U0 ! i ! j))"
  have "?P n (fold ?F [0..<n] U0)"
  proof (rule fold_upt_invariant[where P = ?P])
    show "?P 0 U0" using assms by simp
  next
    fix k U assume "k < n" and P: "?P k U"
    from P have gU: "is_grid n n U" by (rule conjunct1)
    have gF: "is_grid n n (?F k U)"
      by (simp add: is_grid_assign2 gU)
    have "?F k U ! i ! j =
        (if (i = n - 1 \<or> i = 0) \<and> j < Suc k \<and> edge_cond n msk j \<or>
            (j = n - 1 \<or> j = 0) \<and> i < Suc k \<and> edge_cond n msk i
         then 0 else U0 ! i ! j)" if ij: "i < n" "j < n" for i j
    proof -
      from P ij have old: "U ! i ! j =
        (if (i = n - 1 \<or> i = 0) \<and> j < k \<and> edge_cond n msk j \<or>
            (j = n - 1 \<or> j = 0) \<and> i < k \<and> edge_cond n msk i
         then 0 else U0 ! i ! j)" by blast
      show ?thesis
      proof (cases "edge_cond n msk k")
        case True
        then have "?F k U ! i ! j =
          (if i = n - 1 \<and> j = k \<or> i = 0 \<and> j = k \<or> i = k \<and> j = n - 1 \<or> i = k \<and> j = 0
           then 0 else U ! i ! j)"
          using assign2_four[OF gU ij, of "n - 1" k 0 0 k k "n - 1" k 0]
          by (simp add: edge_cond_def)
        then show ?thesis
          unfolding old using True by (auto simp: less_Suc_eq)
      next
        case False
        then have "?F k U ! i ! j = U ! i ! j"
          by (simp add: edge_cond_def)
        then show ?thesis
          unfolding old using False by (auto simp: less_Suc_eq)
      qed
    qed
    with gF show "?P (Suc k) (?F k U)" by blast
  qed simp
  then show ?thesis
    unfolding zero_edges_def by (intro conjI allI impI) auto
qed

lemma write_source_cell:
  assumes "is_grid n n U0"
  shows "is_grid n n (write_source n U0 t xlin) \<and>
     (\<forall>i<n. \<forall>j<n. write_source n U0 t xlin ! i ! j =
        (if i = 0 then source t xlin j else U0 ! i ! j))"
  using loop_row[OF assms, of "\<lambda>_. True" 0 "source t xlin" 0 n]
  by (simp add: write_source_def)

lemma applyBoundaryConditions_cell:
  assumes "is_grid n n U0" "i < n" "j < n"
  shows "applyBoundaryConditions n U0 msk t xlin ! i ! j =
       (if i = 0 then source t xlin j
        else if i = n - 1 \<and> edge_cond n msk j \<or> (j = n - 1 \<or> j = 0) \<and> edge_cond n msk i
        then 0 else U0 ! i ! j)"
  using zero_edges_cell[OF assms(1), of msk]
    write_source_cell[OF zero_edges_cell[OF assms(1), of msk, THEN conjunct1], of t xlin] assms(2,3)
  by (simp add: applyBoundaryConditions_def)

lemma edge_cond_build_mask: "i < n \<Longrightarrow> edge_cond n (build_mask n) i"
  by (simp add: edge_cond_def build_mask_cell)


section \<open>The distributed variant, cell by cell\<close>

lemma assign2_two:
  assumes "is_grid r cl m"
  shows "is_grid r cl (assign2 (assign2 m a1 b1 v) a2 b2 v) \<and>
     (\<forall>i'<r. \<forall>j'<cl. assign2 (assign2 m a1 b1 v) a2 b2 v ! i' ! j' =
        (if i' = a1 \<and> j' = b1 \<or> i' = a2 \<and> j' = b2 then v else m ! i' ! j'))"
proof -
  note g1 = is_grid_assign2[OF assms, of a1 b1 v]
  show ?thesis
    using is_grid_assign2[OF g1, of a2 b2 v]
    by (auto simp: nth_assign2[OF g1] nth_assign2[OF assms])
qed

lemma initializeGrid_mpi_mask:
  assumes "is_grid lN n m0"
  shows "is_grid lN n (fst (initializeGrid_mpi n bsz U0 m0 xlin lN)) \<and>
     (\<forall>i<lN. \<forall>j<n. fst (initializeGrid_mpi n bsz U0 m0 xlin lN) ! i ! j =
        (if j = 0 \<or> j = n - 1 then True else m0 ! i ! j))"
proof -
  have "is_grid lN n (fold (\<lambda>i m. assign2 (assign2 m i 0 True) i (n - 1) True) [0..<lN] m0) \<and>
     (\<forall>i<lN. \<forall>j<n. fold (\<lambda>i m. assign2 (assign2 m i 0 True) i (n - 1) True) [0..<lN] m0 ! i ! j =
        (if 0 \<le> i \<and> i < lN \<and> (j = 0 \<or> j = n - 1) then True else m0 ! i ! j))"
  proof (rule loop_rows[OF assms])
    fix i and m :: mask
    assume m: "is_grid lN n m"
    show "is_grid lN n (assign2 (assign2 m i 0 True) i (n - 1) True) \<and>
       (\<forall>i'<lN. \<forall>j'<n. assign2 (assign2 m i 0 True) i (n - 1) True ! i' ! j' =
          (if i' = i \<and> (j' = 0 \<or> j' = n - 1) then True else m ! i' ! j'))"
      using assign2_two[OF m, of i 0 True i "n - 1"] by auto
  qed
  then show ?thesis
    by (simp add: initializeGrid_mpi_def)
qed

lemma applyBoundaryConditions_mpi_cell:
  assumes "is_grid lN n U0"
  shows "is_grid lN n (applyBoundaryConditions_mpi n U0 msk xlin t lN) \<and>
     (\<forall>i<lN. \<forall>j<n. applyBoundaryConditions_mpi n U0 msk xlin t lN ! i ! j =
        (if j = 0 then source t xlin i else if j = n - 1 then 0 else U0 ! i ! j))"
proof -
  let ?Z = "fold (\<lambda>i U. assign2 (assign2 U i (n - 1) 0) i 0 0) [0..<lN] U0"
  have z: "is_grid lN n ?Z \<and>
     (\<forall>i<lN. \<forall>j<n. ?Z ! i ! j =
        (if 0 \<le> i \<and> i < lN \<and> (j = n - 1 \<or> j = 0) then 0 else U0 ! i ! j))"
  proof (rule loop_rows[OF assms])
    fix i and m :: field
    assume m: "is_grid lN n m"
    show "is_grid lN n (assign2 (assign2 m i (n - 1) 0) i 0 0) \<and>
       (\<forall>i'<lN. \<forall>j'<n. assign2 (assign2 m i (n - 1) 0) i 0 0 ! i' ! j' =
          (if i' = i \<and> (j' = n - 1 \<or> j' = 0) then 0 else m ! i' ! j'))"
      using assign2_two[OF m, of i "n - 1" 0 i 0] by auto
  qed
  have s: "is_grid lN n (fold (\<lambda>i U. assign2 U i 0 (source t xlin i)) [0..<lN] ?Z) \<and>
     (\<forall>i<lN. \<forall>j<n. fold (\<lambda>i U. assign2 U i 0 (source t xlin i)) [0..<lN] ?Z ! i ! j =
        (if 0 \<le> i \<and> i < lN \<and> j = 0 then source t xlin i else ?Z ! i ! j))"
  proof (rule loop_rows[OF z[THEN conjunct1]])
    fix i and m :: field
    assume m: "is_grid lN n m"
    show "is_grid lN n (assign2 m i 0 (source t xlin i)) \<and>
       (\<forall>i'<lN. \<forall>j'<n. assign2 m i 0 (source t xlin i) ! i' ! j' =
          (if i' = i \<and> j' = 0 then source t xlin i else m ! i' ! j'))"
      using is_grid_assign2[OF m, of i 0 "source t xlin i"]
      by (auto simp: nth_assign2[OF m])
  qed
  show ?thesis
    unfolding applyBoundaryConditions_mpi_def using z s by auto
qed


lemma init_worker_fields [simp]:
  "w_local_N (init_worker n bsz sz r) = n div sz"
  "w_start_row (init_worker n bsz sz r) = r * (n div sz)"
  "w_end_row (init_worker n bsz sz r) = (r + 1) * (n div sz)"
  "w_U (init_worker n bsz sz r) = alloc (n div sz) n 0"
  "w_Uprev (init_worker n bsz sz r) = alloc (n div sz) n 0"
  "w_Unew (init_worker n bsz sz r) = alloc (n div sz) n 0"
  "w_t (init_worker n bsz sz r) = 0"
  "w_xlin (init_worker n bsz sz r) = init_xlin n bsz (replicate n 0)"
  by (simp_all add: init_worker_def Let_def split_beta initializeGrid_mpi_def)

lemma init_worker_mask:
  "w_mask (init_worker n bsz sz r) =
     fst (initializeGrid_mpi n bsz (alloc (n div sz) n 0) (alloc (n div sz) n False)
            (replicate n 0) (n div sz))"
  by (simp add: init_worker_def Let_def split_beta)

lemma init_worker_mask_cell:
  assumes "i < n div sz" "j < n"
  shows "w_mask (init_worker n bsz sz r) ! i ! j = (j = 0 \<or> j = n - 1)"
  using initializeGrid_mpi_mask[OF is_grid_alloc[of "n div sz" n False],
      of bsz "alloc (n div sz) n 0" "replicate n 0"] assms
  by (simp add: nth_alloc init_worker_mask)

lemma is_grid_init_worker_mask: "is_grid (n div sz) n (w_mask (init_worker n bsz sz r))"
  using initializeGrid_mpi_mask[OF is_grid_alloc[of "n div sz" n False],
      of bsz "alloc (n div sz) n 0" "replicate n 0"]
  by (simp add: init_worker_mask)

lemma step_worker_fields [simp]:
  "w_local_N (step_worker n fc h w) = w_local_N w"
  "w_start_row (step_worker n fc h w) = w_start_row w"
  "w_end_row (step_worker n fc h w) = w_end_row w"
  "w_mask (step_worker n fc h w) = w_mask w"
  "w_xlin (step_worker n fc h w) = w_xlin w"
  "w_t (step_worker n fc h w) = w_t w + h"
  "w_Uprev (step_worker n fc h w) = w_U w"
  "w_Unew (step_worker n fc h w) =
     calculateLaplacian n (w_U w) (w_Uprev w) (w_mask w) (w_Unew w) fc (w_local_N w)"
  "w_U (step_worker n fc h w) =
     applyBoundaryConditions_mpi n
       (calculateLaplacian n (w_U w) (w_Uprev w) (w_mask w) (w_Unew w) fc (w_local_N w))
       (w_mask w) (w_xlin w) (w_t w) (w_local_N w)"
  by (simp_all add: step_worker_def Let_def)

lemma step_worker_U_cell:
  assumes g: "is_grid (w_local_N w) n (w_Unew w)" and ij: "i < w_local_N w" "j < n"
  shows "w_U (step_worker n fc h w) ! i ! j =
     (if j = 0 then source (w_t w) (w_xlin w) i
      else if j = n - 1 then 0
      else if interior (w_local_N w) n i j \<and> \<not> w_mask w ! i ! j
           then leapfrog_cell (w_U w) (w_Uprev w) fc i j
      else w_Unew w ! i ! j)"
  using applyBoundaryConditions_mpi_cell[OF is_grid_calculateLaplacian[OF g],
      of n "w_U w" "w_Uprev w" "w_mask w" fc "w_local_N w" "w_mask w" "w_xlin w" "w_t w"]
    calculateLaplacian_cell[OF g ij, of n "w_U w" "w_Uprev w" "w_mask w" fc "w_local_N w"] ij
  by simp

lemma bands_union: "(\<Union>r\<in>{0..<k::nat}. {r * l..<(r + 1) * l}) = {0..<k * (l::nat)}"
proof (induction k)
  case 0
  then show ?case by simp
next
  case (Suc k)
  have "(\<Union>r\<in>{0..<Suc k}. {r * l..<(r + 1) * l}) =
      (\<Union>r\<in>{0..<k}. {r * l..<(r + 1) * l}) \<union> {k * l..<(k + 1) * l}"
    by (simp add: atLeast0_lessThan_Suc Un_commute)
  also have "\<dots> = {0..<k * l} \<union> {k * l..<(k + 1) * l}"
    by (simp only: Suc.IH)
  also have "\<dots> = {0..<Suc k * l}"
    by (auto simp: ivl_disj_un)
  finally show ?case .
qed

lemma owned_rows_eq: "owned_rows n bsz sz = {0..<sz * (n div sz)}"
proof -
  have "owned_rows n bsz sz = (\<Union>r\<in>{0..<sz}. {r * (n div sz)..<(r + 1) * (n div sz)})"
    by (simp add: owned_rows_def init_system_def)
  then show ?thesis
    by (simp only: bands_union)
qed

section \<open>Bounds on the square root of two\<close>

lemma sqrt2_upper: "sqrt 2 < 256 / 181"
  by (rule real_less_lsqrt) (simp_all add: power2_eq_square)

lemma sqrt2_above: "181 / 128 < sqrt 2"
  by (rule real_less_rsqrt) (simp add: power2_eq_square)

lemma sqrt2_lower: "1024 / 725 \<le> sqrt 2"
  by (rule real_le_rsqrt) (simp add: power2_eq_square)

section \<open>Rounding to binary64\<close>






















section \<open>Claim C3: the walls of the built mask\<close>

lemma not_in_slit_last: "\<not> in_slit n (n - 1)"
  unfolding in_slit_def by linarith

lemma not_in_slit_0: "n \<noteq> 3 \<Longrightarrow> \<not> in_slit n 0"
  unfolding in_slit_def by linarith

text \<open>
  C3, as stated, fails: the slit loop runs last and over the rows \<open>[1, N-1)\<close>, which
  contain the barrier band, so a barrier cell in a slit column is not a wall. For the
  constant \<open>N = 256\<close> of the source, cell \<open>(64, 80)\<close> lies in the band \<open>[64, 72)\<close>, in a
  column below \<open>N - 1\<close>, and in the slit \<open>[80, 96)\<close>. The edge part fails for \<open>N = 3\<close>
  only, where the first slit is column \<open>0\<close> and row \<open>1\<close> is an inner row: cell \<open>(1, 0)\<close> is
  not a wall.
\<close>

theorem barrier_band_counterexample:
  "\<not> (\<forall>i j. N div 4 \<le> i \<and> i < 9 * N div 32 \<and> j < N - 1 \<longrightarrow> build_mask N ! i ! j) \<and>
   \<not> (\<forall>i<3. build_mask 3 ! i ! 0)"
proof (intro conjI notI)
  assume "\<forall>i j. N div 4 \<le> i \<and> i < 9 * N div 32 \<and> j < N - 1 \<longrightarrow> build_mask N ! i ! j"
  then have "N div 4 \<le> 64 \<and> 64 < 9 * N div 32 \<and> 80 < N - 1 \<longrightarrow> build_mask N ! 64 ! 80"
    by blast
  then have "build_mask 256 ! 64 ! 80"
    by (simp add: N_def)
  then show False
    by (simp add: build_mask_cell in_slit_def)
next
  assume "\<forall>i<3. build_mask 3 ! i ! 0"
  then have "build_mask 3 ! 1 ! 0"
    by simp
  then show False
    by (simp add: build_mask_cell in_slit_def)
qed

text \<open>
  C3, amended: for every \<open>N\<close> and every cell \<open>(i, j)\<close> of the \<open>N \<times> N\<close> mask, the cell is a
  wall when it lies on row \<open>0\<close>, on row \<open>N-1\<close>, on column \<open>N-1\<close>, or on column \<open>0\<close> with
  \<open>N \<noteq> 3\<close>; it is a wall when its row is in \<open>[N/4, 9N/32)\<close> and its column is in
  \<open>[0, N-1)\<close> and outside both slit ranges; and it is not a wall when its row is in
  \<open>[1, N-1)\<close> and its column is in a slit range.
\<close>

theorem build_mask_walls:
  assumes "i < n" "j < n"
  shows "(i = 0 \<or> i = n - 1 \<or> j = n - 1 \<or> j = 0 \<and> n \<noteq> 3 \<longrightarrow> build_mask n ! i ! j) \<and>
         (n div 4 \<le> i \<and> i < 9 * n div 32 \<and> j < n - 1 \<and> \<not> in_slit n j \<longrightarrow> build_mask n ! i ! j) \<and>
         (1 \<le> i \<and> i < n - 1 \<and> in_slit n j \<longrightarrow> \<not> build_mask n ! i ! j)"
proof (intro conjI impI)
  assume h: "i = 0 \<or> i = n - 1 \<or> j = n - 1 \<or> j = 0 \<and> n \<noteq> 3"
  then have "\<not> (1 \<le> i \<and> i < n - 1 \<and> in_slit n j)"
    using not_in_slit_last[of n] not_in_slit_0[of n] by auto
  then show "build_mask n ! i ! j"
    using h by (simp add: build_mask_cell[OF assms]) blast
next
  assume "n div 4 \<le> i \<and> i < 9 * n div 32 \<and> j < n - 1 \<and> \<not> in_slit n j"
  then show "build_mask n ! i ! j"
    by (simp add: build_mask_cell[OF assms])
next
  assume "1 \<le> i \<and> i < n - 1 \<and> in_slit n j"
  then show "\<not> build_mask n ! i ! j"
    by (simp add: build_mask_cell[OF assms])
qed

text \<open>
  C3, witness: the amended statement at \<open>N = 256\<close>, on an edge row, on the last column,
  on column \<open>0\<close>, in the barrier outside the slits, in the barrier inside a slit, and in
  a slit below the barrier.
\<close>

theorem build_mask_walls_witness:
  "build_mask 256 ! 0 ! 80 \<and> build_mask 256 ! 100 ! 255 \<and> build_mask 256 ! 100 ! 0 \<and>
   build_mask 256 ! 64 ! 100 \<and> \<not> build_mask 256 ! 64 ! 80 \<and> \<not> build_mask 256 ! 100 ! 170"
proof -
  have "build_mask 256 ! 0 ! 80"
    using build_mask_walls[of 0 256 80] by simp
  moreover have "build_mask 256 ! 100 ! 255"
    using build_mask_walls[of 100 256 255] by simp
  moreover have "build_mask 256 ! 100 ! 0"
    using build_mask_walls[of 100 256 0] by simp
  moreover have "build_mask 256 ! 64 ! 100"
    using build_mask_walls[of 64 256 100] by (simp add: in_slit_def)
  moreover have "\<not> build_mask 256 ! 64 ! 80"
    using build_mask_walls[of 64 256 80] by (simp add: in_slit_def)
  moreover have "\<not> build_mask 256 ! 100 ! 170"
    using build_mask_walls[of 100 256 170] by (simp add: in_slit_def)
  ultimately show ?thesis by blast
qed

section \<open>Claim C10: the serial stencil is a two-layer scheme\<close>

text \<open>
  In exact real arithmetic \<open>2 * U[i][j] - U[i][j] = U[i][j]\<close>, and \<open>updateLaplacian\<close> of the
  serial and unit-test variants is, for all inputs, the two-layer update that writes
  \<open>U[i][j] + fac * laplacian\<close> into every non-masked interior cell.
\<close>

lemma updateLaplacian_two_layer_exact:
  "updateLaplacian n U Unew0 msk fc = two_layer_update n U Unew0 msk fc"
  unfolding updateLaplacian_def two_layer_update_def two_layer_cell_def Let_def
  by (simp cong del: if_weak_cong)




section \<open>Claim C1: the stencil contract\<close>

text \<open>
  The distributed \<open>calculateLaplacian\<close> meets the contract on the rows of a band: a
  non-masked interior cell receives the three-layer leapfrog value, every other cell of
  \<open>Unew\<close> keeps its content (lemma \<open>calculateLaplacian_cell\<close>). The serial and unit-test
  \<open>updateLaplacian\<close> leave masked cells untouched as well, but write the two-layer value
  (lemma \<open>updateLaplacian_cell\<close>).
\<close>

text \<open>
  C1 on the serial and unit-test \<open>updateLaplacian\<close>, at a failing input: the constants of
  the source (\<open>N = 256\<close>, \<open>fac = 1/2\<close>), the built mask, the current layer \<open>1\<close> at the
  non-masked interior cell \<open>(1, 1)\<close> and \<open>0\<close> elsewhere, the previous layer \<open>0\<close>. The
  contract of C1 asks for \<open>2*1 - 0 + (1/2)*(0 - 4*1) = 0\<close>; the source subtracts \<open>U[i][j]\<close>
  in the place of the previous layer and stores \<open>2*1 - 1 + (1/2)*(0 - 4*1) = -1\<close>.
\<close>

theorem updateLaplacian_not_leapfrog:
  "\<not> build_mask N ! 1 ! 1 \<and>
   updateLaplacian N (impulse N 1 1 1) (alloc N N 0) (build_mask N) (fac boxsize N c) ! 1 ! 1 = - 1 \<and>
   leapfrog_cell (impulse N 1 1 1) (alloc N N 0) (fac boxsize N c) 1 1 = 0"
proof (intro conjI)
  show m: "\<not> build_mask N ! 1 ! 1"
    by (simp add: N_def build_mask_cell in_slit_def)
  have "updateLaplacian 256 (impulse 256 1 1 1) (alloc 256 256 0) (build_mask 256) (1 / 2) ! 1 ! 1
      = - 1"
    using m by (simp add: N_def updateLaplacian_cell[OF is_grid_alloc] interior_def
        two_layer_cell_def nth_impulse)
  then show "updateLaplacian N (impulse N 1 1 1) (alloc N N 0) (build_mask N) (fac boxsize N c)
      ! 1 ! 1 = - 1"
    by (simp add: fac_const) (simp add: N_def)
  have "leapfrog_cell (impulse 256 1 1 1) (alloc 256 256 0) (1 / 2) 1 1 = 0"
    by (simp add: leapfrog_cell_def nth_impulse nth_alloc)
  then show "leapfrog_cell (impulse N 1 1 1) (alloc N N 0) (fac boxsize N c) 1 1 = 0"
    by (simp add: fac_const) (simp add: N_def)
qed

section \<open>Claim C8: locality of the stencil\<close>

text \<open>
  C8, as stated, fails: the cell of the impulse is written by the stencil as well. For
  the constants of the source (\<open>N = 256\<close>, \<open>fac = 1/2\<close>), the built mask and the impulse \<open>1\<close>
  at \<open>(2, 2)\<close>, the new value of \<open>(2, 2)\<close> is \<open>-1\<close>: it differs from the zero that the
  next layer held and from the \<open>1\<close> of the current layer, and \<open>(2, 2)\<close> is not one of its
  own four neighbours.
\<close>

theorem impulse_centre_counterexample:
  "\<not> (\<forall>i<N. \<forall>j<N.
        updateLaplacian N (impulse N 2 2 1) (alloc N N 0) (build_mask N) (fac boxsize N c) ! i ! j
          \<noteq> alloc N N 0 ! i ! j \<longrightarrow> grid_dist i j 2 2 = 1) \<and>
   \<not> (\<forall>i<N. \<forall>j<N.
        updateLaplacian N (impulse N 2 2 1) (alloc N N 0) (build_mask N) (fac boxsize N c) ! i ! j
          \<noteq> impulse N 2 2 1 ! i ! j \<longrightarrow> grid_dist i j 2 2 = 1)"
proof -
  let ?R = "updateLaplacian N (impulse N 2 2 1) (alloc N N 0) (build_mask N) (fac boxsize N c)"
  have m: "\<not> build_mask 256 ! 2 ! 2"
    by (simp add: build_mask_cell in_slit_def)
  have "updateLaplacian 256 (impulse 256 2 2 1) (alloc 256 256 0) (build_mask 256) (1 / 2) ! 2 ! 2
      = - 1"
    using m by (simp add: updateLaplacian_cell[OF is_grid_alloc] interior_def two_layer_cell_def
        nth_impulse)
  then have v: "?R ! 2 ! 2 = - 1"
    by (simp add: fac_const) (simp add: N_def)
  have o: "alloc N N 0 ! 2 ! 2 = (0::real)" "impulse N 2 2 1 ! 2 ! 2 = 1"
    by (simp_all add: N_def nth_alloc nth_impulse)
  have d: "grid_dist 2 2 2 2 \<noteq> 1"
    by (simp add: grid_dist_def)
  have n: "2 < N"
    by (simp add: N_def)
  show ?thesis
  proof (intro conjI notI)
    assume "\<forall>i<N. \<forall>j<N. ?R ! i ! j \<noteq> alloc N N 0 ! i ! j \<longrightarrow> grid_dist i j 2 2 = 1"
    then have "?R ! 2 ! 2 \<noteq> alloc N N 0 ! 2 ! 2 \<longrightarrow> grid_dist 2 2 2 2 = 1"
      using n by blast
    then show False
      unfolding v o using d by simp
  next
    assume "\<forall>i<N. \<forall>j<N. ?R ! i ! j \<noteq> impulse N 2 2 1 ! i ! j \<longrightarrow> grid_dist i j 2 2 = 1"
    then have "?R ! 2 ! 2 \<noteq> impulse N 2 2 1 ! 2 ! 2 \<longrightarrow> grid_dist 2 2 2 2 = 1"
      using n by blast
    then show False
      unfolding v o using d by simp
  qed
qed


lemma grid_dist_ge2:
  assumes "2 \<le> grid_dist i j i0 j0" "1 \<le> i" "1 \<le> j"
  shows "\<not> (i = i0 \<and> j = j0)" "\<not> (i - 1 = i0 \<and> j = j0)" "\<not> (i + 1 = i0 \<and> j = j0)"
    "\<not> (i = i0 \<and> j - 1 = j0)" "\<not> (i = i0 \<and> j + 1 = j0)"
  using assms unfolding grid_dist_def by (auto split: if_splits)

lemma grid_dist_1:
  assumes "grid_dist i j i0 j0 = 1" "1 \<le> i" "1 \<le> j"
  shows "i0 = i - 1 \<and> j0 = j \<or> i0 = i + 1 \<and> j0 = j \<or> i0 = i \<and> j0 = j - 1 \<or> i0 = i \<and> j0 = j + 1"
  using assms unfolding grid_dist_def by (simp split: if_splits) linarith+

text \<open>
  C8, amended: for an impulse \<open>v\<close> at an interior non-wall cell \<open>(i0, j0)\<close> of an otherwise
  zero current layer and a zero next layer, after one \<open>updateLaplacian\<close> every cell two or
  more grid steps away from \<open>(i0, j0)\<close> is exactly \<open>0\<close>, and each of the four neighbours
  holds \<open>fac * v\<close> if it is an interior non-wall cell and \<open>0\<close> otherwise. (Nothing is said
  about the cell \<open>(i0, j0)\<close> itself.)
\<close>

theorem impulse_locality:
  assumes c: "interior n n i0 j0" "\<not> msk ! i0 ! j0" and ij: "i < n" "j < n"
  shows "(2 \<le> grid_dist i j i0 j0 \<longrightarrow>
            updateLaplacian n (impulse n i0 j0 v) (alloc n n 0) msk fc ! i ! j = 0) \<and>
         (grid_dist i j i0 j0 = 1 \<longrightarrow>
            updateLaplacian n (impulse n i0 j0 v) (alloc n n 0) msk fc ! i ! j =
              (if interior n n i j \<and> \<not> msk ! i ! j then fc * v else 0))"
proof (cases "interior n n i j \<and> \<not> msk ! i ! j")
  case False
  then have "updateLaplacian n (impulse n i0 j0 v) (alloc n n 0) msk fc ! i ! j = 0"
    using ij by (auto simp: updateLaplacian_cell[OF is_grid_alloc] nth_alloc)
  with False show ?thesis
    by auto
next
  case True
  then have b: "1 \<le> i" "1 \<le> j" "i - 1 < n" "i + 1 < n" "j - 1 < n" "j + 1 < n"
    by (auto simp: interior_def)
  have val: "updateLaplacian n (impulse n i0 j0 v) (alloc n n 0) msk fc ! i ! j =
      two_layer_cell (impulse n i0 j0 v) fc i j"
    using True ij by (simp add: updateLaplacian_cell[OF is_grid_alloc])
  note cells = nth_impulse[OF ij, of i0 j0 v] nth_impulse[OF b(3) ij(2), of i0 j0 v]
    nth_impulse[OF b(4) ij(2), of i0 j0 v] nth_impulse[OF ij(1) b(5), of i0 j0 v]
    nth_impulse[OF ij(1) b(6), of i0 j0 v]
  have far: "two_layer_cell (impulse n i0 j0 v) fc i j = 0" if "2 \<le> grid_dist i j i0 j0"
    unfolding two_layer_cell_def cells using grid_dist_ge2[OF that b(1,2)] by auto
  have near: "two_layer_cell (impulse n i0 j0 v) fc i j = fc * v" if "grid_dist i j i0 j0 = 1"
    unfolding two_layer_cell_def cells using grid_dist_1[OF that b(1,2)] b(1,2) by auto
  show ?thesis
    unfolding val using True far near by simp
qed

text \<open>
  C8, witness: the constants of the source, the built mask, the impulse \<open>1\<close> at \<open>(2, 2)\<close>;
  the neighbour \<open>(2, 3)\<close> and the far cell \<open>(4, 4)\<close>.
\<close>

theorem impulse_locality_witness:
  "interior N N 2 2 \<and> \<not> build_mask N ! 2 ! 2 \<and>
   updateLaplacian N (impulse N 2 2 1) (alloc N N 0) (build_mask N) (fac boxsize N c) ! 2 ! 3
     = 1 / 2 \<and>
   updateLaplacian N (impulse N 2 2 1) (alloc N N 0) (build_mask N) (fac boxsize N c) ! 4 ! 4 = 0"
proof -
  have c: "interior N N 2 2" "\<not> build_mask N ! 2 ! 2" "\<not> build_mask N ! 2 ! 3"
    "interior N N 2 3" "2 < N" "3 < N" "4 < N"
    by (simp_all add: N_def interior_def build_mask_cell in_slit_def)
  have "updateLaplacian N (impulse N 2 2 1) (alloc N N 0) (build_mask N) (fac boxsize N c) ! 2 ! 3
      = 1 / 2"
    using impulse_locality[OF c(1,2) c(5,6), of 1 "fac boxsize N c"] c(3,4)
    by (simp add: grid_dist_def fac_const)
  moreover have
    "updateLaplacian N (impulse N 2 2 1) (alloc N N 0) (build_mask N) (fac boxsize N c) ! 4 ! 4 = 0"
    using impulse_locality[OF c(1,2) c(7,7), of 1 "fac boxsize N c"]
    by (simp add: grid_dist_def)
  ultimately show ?thesis
    using c(1,2) by blast
qed

section \<open>Claim C6: the edges after the boundary conditions\<close>

text \<open>
  C6, as stated, fails at the two corners of the source row: the source loop runs after
  the zeroing loop and rewrites all of row \<open>0\<close>, so \<open>U[0][0]\<close> and \<open>U[0][N-1]\<close> hold the source
  term, which is not zero in general. For the constants of the source, a zero field and
  \<open>t = 1/40\<close>, the corner holds \<open>U[0][0] = sin(\<pi>/2) * sin\<^sup>2(\<pi>/512) > 0\<close>.
\<close>

theorem source_corner_counterexample:
  "\<not> (\<forall>i<N. applyBoundaryConditions N (alloc N N 0) (build_mask N) (1 / 40)
          (snd (initializeGrid N boxsize (alloc N N 0) (alloc N N False) (replicate N 0)))
          ! i ! 0 = 0)"
proof
  let ?xlin = "snd (initializeGrid N boxsize (alloc N N 0) (alloc N N False) (replicate N 0))"
  assume "\<forall>i<N. applyBoundaryConditions N (alloc N N 0) (build_mask N) (1 / 40) ?xlin ! i ! 0 = 0"
  then have "applyBoundaryConditions N (alloc N N 0) (build_mask N) (1 / 40) ?xlin ! 0 ! 0 = 0"
    by (simp add: N_def)
  then have z: "source (1 / 40) ?xlin 0 = 0"
    by (simp add: applyBoundaryConditions_cell[OF is_grid_alloc] N_def)
  have x: "?xlin ! 0 = 1 / 512"
    by (simp add: initializeGrid_def N_def boxsize_def init_xlin_nth dx_def)
  have "0 < sin (pi * (1 / 512))"
    by (rule sin_gt_zero) (simp_all add: pi_gt_zero)
  then show False
    using z by (simp add: source_def x)
qed

text \<open>
  C6, amended: after \<open>applyBoundaryConditions\<close> at time \<open>t\<close> on an \<open>N \<times> N\<close> field with the
  built mask, for every \<open>i < N\<close>: \<open>U[0][i] = sin(20\<pi>t) * sin\<^sup>2(\<pi> * xlin[i])\<close>;
  \<open>U[i][0] = U[i][N-1] = 0\<close> when \<open>i \<ge> 1\<close>; and \<open>U[N-1][i] = 0\<close> when \<open>N \<ge> 2\<close>.
\<close>

theorem applyBoundaryConditions_edges:
  assumes "is_grid n n U0" "i < n"
  shows "applyBoundaryConditions n U0 (build_mask n) t xlin ! 0 ! i =
           sin (20 * pi * t) * (sin (pi * xlin ! i))\<^sup>2 \<and>
         (1 \<le> i \<longrightarrow> applyBoundaryConditions n U0 (build_mask n) t xlin ! i ! 0 = 0 \<and>
                    applyBoundaryConditions n U0 (build_mask n) t xlin ! i ! (n - 1) = 0) \<and>
         (2 \<le> n \<longrightarrow> applyBoundaryConditions n U0 (build_mask n) t xlin ! (n - 1) ! i = 0)"
proof (intro conjI impI)
  have n: "0 < n" "n - 1 < n" using assms(2) by simp_all
  note e = edge_cond_build_mask[OF assms(2)]
  show "applyBoundaryConditions n U0 (build_mask n) t xlin ! 0 ! i =
           sin (20 * pi * t) * (sin (pi * xlin ! i))\<^sup>2"
    by (simp add: applyBoundaryConditions_cell[OF assms(1) n(1) assms(2)] source_def)
  show "applyBoundaryConditions n U0 (build_mask n) t xlin ! i ! 0 = 0" if "1 \<le> i"
    using that e applyBoundaryConditions_cell[OF assms(1) assms(2) n(1), of "build_mask n" t xlin]
    by simp
  show "applyBoundaryConditions n U0 (build_mask n) t xlin ! i ! (n - 1) = 0" if "1 \<le> i"
    using that e applyBoundaryConditions_cell[OF assms(1) assms(2) n(2), of "build_mask n" t xlin]
    by simp
  show "applyBoundaryConditions n U0 (build_mask n) t xlin ! (n - 1) ! i = 0" if "2 \<le> n"
    using that e applyBoundaryConditions_cell[OF assms(1) n(2) assms(2), of "build_mask n" t xlin]
    by simp
qed

text \<open>
  C6, witness: \<open>N = 256\<close>, a field of ones, \<open>t = 1/40\<close>, the coordinates of
  \<open>initializeGrid\<close>, and \<open>i = 5\<close>.
\<close>

theorem applyBoundaryConditions_edges_witness:
  "applyBoundaryConditions 256 (alloc 256 256 1) (build_mask 256) (1 / 40)
       (init_xlin 256 1 (replicate 256 0)) ! 0 ! 5 =
     sin (20 * pi * (1 / 40)) * (sin (pi * init_xlin 256 1 (replicate 256 0) ! 5))\<^sup>2 \<and>
   applyBoundaryConditions 256 (alloc 256 256 1) (build_mask 256) (1 / 40)
       (init_xlin 256 1 (replicate 256 0)) ! 5 ! 0 = 0 \<and>
   applyBoundaryConditions 256 (alloc 256 256 1) (build_mask 256) (1 / 40)
       (init_xlin 256 1 (replicate 256 0)) ! 5 ! 255 = 0 \<and>
   applyBoundaryConditions 256 (alloc 256 256 1) (build_mask 256) (1 / 40)
       (init_xlin 256 1 (replicate 256 0)) ! 255 ! 5 = 0"
  using applyBoundaryConditions_edges[OF is_grid_alloc, of 5 256 1 "1 / 40"
      "init_xlin 256 1 (replicate 256 0)"]
  by simp

section \<open>Claim C5: the time step and the CFL bound\<close>







section \<open>Claim C7: the driver loop terminates after 725 steps\<close>

lemma step_t [simp]: "s_t (step n msk xlin fc h s) = s_t s + h"
  by (simp add: step_def Let_def)

lemma step_out [simp]: "s_out (step n msk xlin fc h s) = s_out s @ [s_t s + h]"
  by (simp add: step_def Let_def)

lemma steps_t: "s_t ((step n msk xlin fc h ^^ k) s) = s_t s + real k * h"
  by (induction k) (simp_all add: algebra_simps)

lemma steps_out: "length (s_out ((step n msk xlin fc h ^^ k) s)) = length (s_out s) + k"
  by (induction k) simp_all

lemma main_loop_steps:
  assumes "\<And>j. j < k \<Longrightarrow> s_t s + real j * h < tend" and "\<not> s_t s + real k * h < tend"
  shows "main_loop n msk xlin fc h tend s = Some ((step n msk xlin fc h ^^ k) s)"
  using assms
proof (induction k arbitrary: s)
  case 0
  then show ?case by (subst main_loop.simps) simp
next
  case (Suc k)
  have lt: "s_t s < tend" using Suc.prems(1)[of 0] by simp
  have "main_loop n msk xlin fc h tend (step n msk xlin fc h s) =
      Some ((step n msk xlin fc h ^^ k) (step n msk xlin fc h s))"
  proof (rule Suc.IH)
    fix j assume "j < k"
    then show "s_t (step n msk xlin fc h s) + real j * h < tend"
      using Suc.prems(1)[of "Suc j"] by (simp add: algebra_simps)
  next
    show "\<not> s_t (step n msk xlin fc h s) + real k * h < tend"
      using Suc.prems(2) by (simp add: algebra_simps)
  qed
  then show ?case
    using lt by (subst main_loop.simps) (simp add: funpow_swap1)
qed

lemma dt_const: "dt boxsize N c = sqrt 2 / 512"
  by (simp add: dt_def dx_def boxsize_def N_def c_def)

lemma below_725: "j < 725 \<Longrightarrow> real j * (sqrt 2 / 512) < 2"
proof -
  assume "j < 725"
  then have "real j \<le> 724" by simp
  then have "real j * sqrt 2 \<le> 724 * sqrt 2"
    by (rule mult_right_mono) simp
  moreover have "real j * (sqrt 2 / 512) = real j * sqrt 2 / 512"
    by simp
  ultimately show ?thesis
    using sqrt2_upper by linarith
qed

lemma at_725: "\<not> real 725 * (sqrt 2 / 512) < 2"
  using sqrt2_lower by simp

lemma ceiling_steps: "\<lceil>tEnd / dt boxsize N c\<rceil> = 725"
proof -
  have "tEnd / dt boxsize N c = 1024 / sqrt 2"
    by (simp add: dt_const tEnd_def)
  also have "\<dots> = 512 * sqrt 2"
    using real_div_sqrt[of 2] by (simp add: field_simps)
  finally have e: "tEnd / dt boxsize N c = 512 * sqrt 2" .
  show ?thesis
    unfolding e using sqrt2_above sqrt2_upper by (intro ceiling_unique) simp_all
qed

text \<open>
  C7: with the constants \<open>N = 256\<close>, \<open>boxsize = 1\<close>, \<open>c = 1\<close>, \<open>tEnd = 2\<close> the loop of the serial
  \<open>main\<close> returns; the final state is the initial state after exactly
  \<open>\<lceil>tEnd / dt\<rceil> = 725\<close> iterations of the loop body, the output holds one line for each
  of them, and the final time is at least \<open>tEnd\<close>.
\<close>

theorem main_terminates:
  "\<exists>s. main = Some s \<and>
       s = (step N (build_mask N) (init_xlin N boxsize (replicate N 0)) (fac boxsize N c)
              (dt boxsize N c) ^^ nat \<lceil>tEnd / dt boxsize N c\<rceil>) (init_state N) \<and>
       length (s_out s) = nat \<lceil>tEnd / dt boxsize N c\<rceil> \<and>
       nat \<lceil>tEnd / dt boxsize N c\<rceil> = 725 \<and>
       tEnd \<le> s_t s"
proof -
  let ?step = "step N (build_mask N) (init_xlin N boxsize (replicate N 0)) (fac boxsize N c)
              (dt boxsize N c)"
  have k: "nat \<lceil>tEnd / dt boxsize N c\<rceil> = 725"
    by (simp add: ceiling_steps)
  have "main_loop N (build_mask N) (init_xlin N boxsize (replicate N 0)) (fac boxsize N c)
          (dt boxsize N c) tEnd (init_state N) = Some ((?step ^^ 725) (init_state N))"
    by (rule main_loop_steps)
      (use below_725 at_725 in \<open>simp_all add: init_state_def dt_const tEnd_def\<close>)
  then have m: "main = Some ((?step ^^ 725) (init_state N))"
    by (simp add: main_def run_def build_mask_def initializeGrid_def)
  have t: "tEnd \<le> s_t ((?step ^^ 725) (init_state N))"
    unfolding steps_t using at_725 by (simp add: init_state_def dt_const tEnd_def)
  have l: "length (s_out ((?step ^^ 725) (init_state N))) = 725"
    unfolding steps_out by (simp add: init_state_def)
  show ?thesis
    unfolding k using m t l by simp
qed


section \<open>Claim C9: rows that no process owns\<close>

text \<open>
  \<open>main\<close> of the distributed variant computes \<open>local_N = N / size\<close> by integer division and
  goes on; it has no branch that reports an error, so initialisation is a total function
  to the locals of a process.
\<close>

text \<open>
  C9, as stated, fails: with the constant \<open>N = 256\<close> and three processes, \<open>3\<close> does not
  divide \<open>N\<close>, every process gets \<open>85\<close> rows, the last band ends at row \<open>255\<close>, row \<open>255\<close> of
  the grid belongs to no process, and the loop condition \<open>t < tEnd\<close> holds on entry, so
  stepping starts.
\<close>

theorem truncated_rows_counterexample:
  "\<not> 3 dvd N \<and> w_local_N (init_worker N boxsize 3 2) = 85 \<and>
   w_end_row (init_worker N boxsize 3 2) = 255 \<and> 255 < N \<and> 255 \<notin> owned_rows N boxsize 3 \<and>
   w_t (init_worker N boxsize 3 2) < tEnd"
  by (simp add: owned_rows_eq N_def tEnd_def)


text \<open>
  C9, amended: for every \<open>N\<close> and every number \<open>size \<ge> 1\<close> of processes, initialisation
  gives the process of rank \<open>r\<close> the band \<open>[r * (N div size), (r + 1) * (N div size))\<close> of
  \<open>N div size\<close> rows; the bands cover exactly the rows \<open>[0, N - N mod size)\<close>; they cover
  all \<open>N\<close> rows if and only if \<open>size\<close> divides \<open>N\<close>.
\<close>

theorem bands_cover:
  assumes "0 < sz" "r < sz"
  shows "w_local_N (init_worker n bsz sz r) = n div sz \<and>
         w_start_row (init_worker n bsz sz r) = r * (n div sz) \<and>
         w_end_row (init_worker n bsz sz r) = (r + 1) * (n div sz) \<and>
         owned_rows n bsz sz = {0..<n - n mod sz} \<and>
         (owned_rows n bsz sz = {0..<n} \<longleftrightarrow> sz dvd n)"
proof -
  have e: "sz * (n div sz) = n - n mod sz"
    by (simp add: minus_mod_eq_mult_div)
  have "({0..<n - n mod sz} = {0..<n}) = (n - n mod sz = n)"
    by (metis atLeast0LessThan lessThan_eq_iff)
  moreover have "(n - n mod sz = n) = (n mod sz = 0)"
    using mod_less_eq_dividend[of n sz] by (cases "n = 0") (simp, linarith)
  ultimately have "({0..<n - n mod sz} = {0..<n}) = (n mod sz = 0)"
    by simp
  then show ?thesis
    by (simp add: owned_rows_eq e dvd_eq_mod_eq_0)
qed

text \<open>C9, witness: \<open>N = 256\<close> with four processes, and with three.\<close>

theorem bands_cover_witness:
  "w_local_N (init_worker 256 1 4 1) = 64 \<and> w_start_row (init_worker 256 1 4 1) = 64 \<and>
   w_end_row (init_worker 256 1 4 1) = 128 \<and> owned_rows 256 1 4 = {0..<256} \<and>
   owned_rows 256 1 3 = {0..<255}"
  using bands_cover[of 4 1 256 1] bands_cover[of 3 1 256 1] by simp

section \<open>Claim C4: the mask of a partitioned run\<close>

lemma concat_replicate_nth:
  assumes "length M = l"
  shows "i < k * l \<Longrightarrow> concat (replicate k M) ! i = M ! (i mod l)"
proof (induction k arbitrary: i)
  case 0
  then show ?case by simp
next
  case (Suc k)
  show ?case
  proof (cases "i < l")
    case True
    then show ?thesis using assms by (simp add: nth_append)
  next
    case False
    then have "i - l < k * l" using Suc.prems by simp
    then have "concat (replicate k M) ! (i - l) = M ! ((i - l) mod l)"
      by (rule Suc.IH)
    then show ?thesis
      using False assms by (simp add: nth_append le_mod_geq)
  qed
qed

lemma assembled_mask_eq:
  "assembled_mask n bsz sz = concat (replicate sz (w_mask (init_worker n bsz sz 0)))"
proof -
  have l: "length (w_mask (init_worker n bsz sz 0)) = n div sz"
    using is_grid_init_worker_mask[of n sz bsz 0] by (simp add: is_grid_iff)
  have m: "w_mask (init_worker n bsz sz r) = w_mask (init_worker n bsz sz 0)" for r
    by (simp add: init_worker_mask)
  have t: "take (n div sz) (w_mask (init_worker n bsz sz r)) = w_mask (init_worker n bsz sz 0)"
    for r
    unfolding m[of r] using l by simp
  have "map (\<lambda>w. take (w_end_row w - w_start_row w) (w_mask w)) (init_system n bsz sz) =
      map (\<lambda>r. w_mask (init_worker n bsz sz 0)) [0..<sz]"
    unfolding init_system_def map_map comp_def
    by (rule map_cong) (simp_all add: t)
  then show ?thesis
    by (simp add: assembled_mask_def map_replicate_const)
qed

lemma length_assembled_mask: "length (assembled_mask n bsz sz) = sz * (n div sz)"
  using is_grid_init_worker_mask[of n sz bsz 0]
  by (simp add: assembled_mask_eq is_grid_iff length_concat sum_list_replicate)

lemma assembled_mask_cell:
  assumes "i < sz * (n div sz)" "j < n"
  shows "assembled_mask n bsz sz ! i ! j = (j = 0 \<or> j = n - 1)"
proof -
  have l: "length (w_mask (init_worker n bsz sz 0)) = n div sz"
    using is_grid_init_worker_mask[of n sz bsz 0] by (simp add: is_grid_iff)
  have p: "0 < n div sz" using assms(1) by (cases "n div sz") simp_all
  have "assembled_mask n bsz sz ! i = w_mask (init_worker n bsz sz 0) ! (i mod (n div sz))"
    unfolding assembled_mask_eq by (rule concat_replicate_nth[OF l assms(1)])
  then show ?thesis
    using init_worker_mask_cell[of "i mod (n div sz)" n sz j bsz 0] p assms(2) by simp
qed

text \<open>
  C4 on \<open>initializeGrid\<close> of the distributed variant: it marks columns \<open>0\<close> and \<open>N-1\<close> of
  the rows of a band and nothing else (lemma \<open>assembled_mask_cell\<close>), where the serial
  \<open>initializeGrid\<close> also marks rows \<open>0\<close> and \<open>N-1\<close> and the barrier. For \<open>N = 256\<close> and two
  processes the assembled mask has all \<open>N\<close> rows and differs from the mask of the whole
  grid: cell \<open>(0, 1)\<close> of the top edge and cell \<open>(64, 1)\<close> of the barrier are walls of the
  serial mask and are no walls of the assembled one.
\<close>

theorem assembled_mask_differs:
  "length (assembled_mask N boxsize 2) = N \<and>
   build_mask N ! 0 ! 1 \<and> \<not> assembled_mask N boxsize 2 ! 0 ! 1 \<and>
   build_mask N ! 64 ! 1 \<and> \<not> assembled_mask N boxsize 2 ! 64 ! 1 \<and>
   assembled_mask N boxsize 2 \<noteq> build_mask N"
proof -
  have a: "\<not> assembled_mask 256 boxsize 2 ! 0 ! 1" "\<not> assembled_mask 256 boxsize 2 ! 64 ! 1"
    by (simp_all add: assembled_mask_cell)
  have b: "build_mask 256 ! 0 ! 1" "build_mask 256 ! 64 ! 1"
    by (simp_all add: build_mask_cell in_slit_def)
  have "assembled_mask 256 boxsize 2 \<noteq> build_mask 256"
    using a(1) b(1) by auto
  then show ?thesis
    using a b by (simp add: N_def length_assembled_mask)
qed


section \<open>Claim C2: halo exchange\<close>

lemma sin_sq_less:
  assumes "0 \<le> x" "x < y" "y \<le> pi / 2"
  shows "(sin x)\<^sup>2 < (sin y)\<^sup>2"
proof -
  have "sin x < sin y"
    using assms by (intro sin_monotone_2pi) (simp_all add: pi_ge_zero order_trans[of "- (pi / 2)" 0])
  moreover have "0 \<le> sin x"
    using assms by (intro sin_ge_zero) simp_all
  ultimately show ?thesis
    by (intro power_strict_mono) simp_all
qed

lemma source_factor_positive: "0 < sin (20 * pi * dt boxsize N c)"
proof -
  have e: "20 * pi * dt boxsize N c = (5 * sqrt 2 / 128) * pi"
    by (simp add: dt_def dx_def boxsize_def N_def c_def)
  have "0 < sqrt 2" "sqrt 2 < 256 / 181"
    using sqrt2_upper by simp_all
  then have "0 < (5 * sqrt 2 / 128) * pi" "(5 * sqrt 2 / 128) * pi < pi"
    using pi_gt_zero by simp_all
  then show ?thesis
    unfolding e by (rule sin_gt_zero)
qed

lemma length_step_system_funpow: "length ((step_system n fc h ^^ k) ws) = length ws"
  by (induction k) (simp_all add: step_system_def)

lemma step_system_funpow_nth:
  "r < length ws \<Longrightarrow> (step_system n fc h ^^ k) ws ! r = (step_worker n fc h ^^ k) (ws ! r)"
  by (induction k) (simp_all add: step_system_def length_step_system_funpow)

lemma run_system_two:
  assumes "r < sz"
  shows "run_system n bsz spd sz 2 ! r =
     step_worker n (fac bsz n spd) (dt bsz n spd)
       (step_worker n (fac bsz n spd) (dt bsz n spd) (init_worker n bsz sz r))"
proof -
  have "run_system n bsz spd sz 2 ! r =
      (step_worker n (fac bsz n spd) (dt bsz n spd) ^^ 2) (init_system n bsz sz ! r)"
    unfolding run_system_def
    by (rule step_system_funpow_nth) (simp add: init_system_def assms)
  then show ?thesis
    using assms by (simp add: init_system_def numeral_2_eq_2)
qed

lemma run_system_two_column0:
  assumes "r < sz" "i < n div sz" "0 < n"
  shows "w_U (run_system n bsz spd sz 2 ! r) ! i ! 0 =
     sin (20 * pi * dt bsz n spd) * (sin (pi * (0.5 * dx bsz n + real i * dx bsz n)))\<^sup>2"
proof -
  let ?w0 = "init_worker n bsz sz r"
  let ?w1 = "step_worker n (fac bsz n spd) (dt bsz n spd) ?w0"
  have g: "is_grid (w_local_N ?w1) n (w_Unew ?w1)"
    by (simp add: is_grid_calculateLaplacian[OF is_grid_alloc])
  have i: "i < w_local_N ?w1" "i < n"
    using assms(2) div_le_dividend[of n sz] by (simp, linarith)
  have "w_U (step_worker n (fac bsz n spd) (dt bsz n spd) ?w1) ! i ! 0 =
      source (w_t ?w1) (w_xlin ?w1) i"
    using step_worker_U_cell[OF g i(1) assms(3)] by simp
  then show ?thesis
    using i(2) by (simp add: run_system_two[OF assms(1)] source_def init_xlin_nth)
qed

lemma step_worker_bounds_update:
  "step_worker n fc h (w\<lparr>w_start_row := a, w_end_row := b\<rparr>) =
     (step_worker n fc h w)\<lparr>w_start_row := a, w_end_row := b\<rparr>"
  by (simp add: step_worker_def Let_def)

lemma steps_worker_bounds_update:
  "(step_worker n fc h ^^ k) (w\<lparr>w_start_row := a, w_end_row := b\<rparr>) =
     ((step_worker n fc h ^^ k) w)\<lparr>w_start_row := a, w_end_row := b\<rparr>"
  by (induction k) (simp_all add: step_worker_bounds_update)

lemma init_worker_rank:
  "init_worker n bsz sz r =
     (init_worker n bsz sz 0)\<lparr>w_start_row := r * (n div sz), w_end_row := (r + 1) * (n div sz)\<rparr>"
  by (simp add: init_worker_def Let_def split_beta)

lemma run_system_nth:
  assumes "r < sz"
  shows "run_system n bsz spd sz k ! r =
     (step_worker n (fac bsz n spd) (dt bsz n spd) ^^ k) (init_worker n bsz sz r)"
proof -
  have "run_system n bsz spd sz k ! r =
      (step_worker n (fac bsz n spd) (dt bsz n spd) ^^ k) (init_system n bsz sz ! r)"
    unfolding run_system_def
    by (rule step_system_funpow_nth) (simp add: init_system_def assms)
  then show ?thesis
    using assms by (simp add: init_system_def)
qed

lemma run_system_rank_free:
  assumes "r < sz"
  shows "w_U (run_system n bsz spd sz k ! r) = w_U (run_system n bsz spd sz k ! 0)"
    and "w_Uprev (run_system n bsz spd sz k ! r) = w_Uprev (run_system n bsz spd sz k ! 0)"
    and "w_Unew (run_system n bsz spd sz k ! r) = w_Unew (run_system n bsz spd sz k ! 0)"
proof -
  have z: "0 < sz" using assms by simp
  show "w_U (run_system n bsz spd sz k ! r) = w_U (run_system n bsz spd sz k ! 0)"
    "w_Uprev (run_system n bsz spd sz k ! r) = w_Uprev (run_system n bsz spd sz k ! 0)"
    "w_Unew (run_system n bsz spd sz k ! r) = w_Unew (run_system n bsz spd sz k ! 0)"
    unfolding run_system_nth[OF assms] run_system_nth[OF z]
    by (subst init_worker_rank, simp add: steps_worker_bounds_update)+
qed

lemma band_inv_init: "band_inv n bsz sz h 0 (init_worker n bsz sz r)"
  by (simp add: band_inv_def is_grid_alloc nth_alloc)

lemma band_inv_step:
  assumes "band_inv n bsz sz h k w"
  shows "band_inv n bsz sz h (Suc k) (step_worker n fc h w)"
proof -
  from assms have l: "w_local_N w = n div sz" and gn: "is_grid (n div sz) n (w_Unew w)"
    and z: "\<And>i j. i < n div sz \<Longrightarrow> j < n \<Longrightarrow> i = 0 \<or> i = n div sz - 1 \<Longrightarrow> 1 \<le> j \<Longrightarrow>
        j < n - 1 \<Longrightarrow> w_Unew w ! i ! j = 0"
    by (simp_all add: band_inv_def)
  have g: "is_grid (w_local_N w) n (w_Unew w)"
    using gn l by simp
  note gc = is_grid_calculateLaplacian[OF g, of n "w_U w" "w_Uprev w" "w_mask w" fc "w_local_N w"]
  have edge: "w_Unew (step_worker n fc h w) ! i ! j = 0 \<and> w_U (step_worker n fc h w) ! i ! j = 0"
    if ij: "i < n div sz" "j < n" and e: "i = 0 \<or> i = n div sz - 1" and j: "1 \<le> j" "j < n - 1"
    for i j
  proof -
    have ni: "\<not> interior (w_local_N w) n i j"
      using e l by (auto simp: interior_def)
    have il: "i < w_local_N w" using ij l by simp
    have "w_Unew (step_worker n fc h w) ! i ! j = w_Unew w ! i ! j"
      using calculateLaplacian_cell[OF g il ij(2), of n "w_U w" "w_Uprev w" "w_mask w" fc "w_local_N w"] ni
      by simp
    moreover have "w_U (step_worker n fc h w) ! i ! j = w_Unew w ! i ! j"
      using step_worker_U_cell[OF g il ij(2), of fc h] ni j by simp
    ultimately show ?thesis
      using z[OF ij e j] by simp
  qed
  have "is_grid (n div sz) n (w_U (step_worker n fc h w))"
    using applyBoundaryConditions_mpi_cell[OF gc] l by simp
  moreover have "is_grid (n div sz) n (w_Unew (step_worker n fc h w))"
    using gc l by simp
  ultimately show ?thesis
    using assms edge by (simp add: band_inv_def algebra_simps)
qed

lemma band_inv_steps:
  "band_inv n bsz sz h k ((step_worker n fc h ^^ k) (init_worker n bsz sz r))"
  by (induction k) (simp_all add: band_inv_init band_inv_step)


text \<open>
  C2, as stated, fails: the loop of the distributed \<open>main\<close> sends and receives nothing,
  and the arrays of a process have \<open>local_N\<close> rows, none of them a ghost row. With the
  constants of the source (\<open>N = 256\<close>) and two processes, after two iterations the field of
  each process has \<open>128\<close> rows; the last row of process \<open>0\<close>, which the stencil reads below
  its last updated row, differs in column \<open>0\<close> from the first and from the second row of
  process \<open>1\<close>, and the first row of process \<open>1\<close> differs from the last updated row of
  process \<open>0\<close>.
\<close>

theorem no_ghost_rows_counterexample:
  "length (w_U (run_system N boxsize c 2 2 ! 0)) = 128 \<and>
   w_U (run_system N boxsize c 2 2 ! 0) ! 127 ! 0 \<noteq> w_U (run_system N boxsize c 2 2 ! 1) ! 0 ! 0 \<and>
   w_U (run_system N boxsize c 2 2 ! 0) ! 127 ! 0 \<noteq> w_U (run_system N boxsize c 2 2 ! 1) ! 1 ! 0 \<and>
   w_U (run_system N boxsize c 2 2 ! 1) ! 0 ! 0 \<noteq> w_U (run_system N boxsize c 2 2 ! 0) ! 126 ! 0"
proof -
  let ?S = "sin (20 * pi * dt boxsize N c)"
  have v: "w_U (run_system N boxsize c 2 2 ! r) ! i ! 0 =
      ?S * (sin (pi * (0.5 * dx boxsize N + real i * dx boxsize N)))\<^sup>2"
    if "r < 2" "i < 128" for r i
    using run_system_two_column0[of r 2 i N boxsize c] that by (simp add: N_def)
  have x: "pi * (0.5 * dx boxsize N + real 0 * dx boxsize N) = pi / 512"
    "pi * (0.5 * dx boxsize N + real 1 * dx boxsize N) = 3 * pi / 512"
    "pi * (0.5 * dx boxsize N + real 126 * dx boxsize N) = 253 * pi / 512"
    "pi * (0.5 * dx boxsize N + real 127 * dx boxsize N) = 255 * pi / 512"
    by (simp_all add: dx_def boxsize_def N_def)
  have v0: "w_U (run_system N boxsize c 2 2 ! 0) ! 127 ! 0 = ?S * (sin (255 * pi / 512))\<^sup>2"
    using v[of 0 127] unfolding x by simp
  have v1: "w_U (run_system N boxsize c 2 2 ! 0) ! 126 ! 0 = ?S * (sin (253 * pi / 512))\<^sup>2"
    using v[of 0 126] unfolding x by simp
  have v2: "w_U (run_system N boxsize c 2 2 ! 1) ! 1 ! 0 = ?S * (sin (3 * pi / 512))\<^sup>2"
    using v[of 1 1] unfolding x by simp
  have v3: "w_U (run_system N boxsize c 2 2 ! 1) ! 0 ! 0 = ?S * (sin (pi / 512))\<^sup>2"
    using v[of 1 0] unfolding x by simp
  have s: "(sin (pi / 512))\<^sup>2 < (sin (3 * pi / 512))\<^sup>2"
    "(sin (3 * pi / 512))\<^sup>2 < (sin (253 * pi / 512))\<^sup>2"
    "(sin (253 * pi / 512))\<^sup>2 < (sin (255 * pi / 512))\<^sup>2"
    using pi_gt_zero by (intro sin_sq_less; simp)+
  then have d: "(sin (255 * pi / 512))\<^sup>2 \<noteq> (sin (pi / 512))\<^sup>2"
    "(sin (255 * pi / 512))\<^sup>2 \<noteq> (sin (3 * pi / 512))\<^sup>2"
    "(sin (pi / 512))\<^sup>2 \<noteq> (sin (253 * pi / 512))\<^sup>2"
    by linarith+
  have n: "?S \<noteq> 0"
    using source_factor_positive by simp
  have "is_grid 128 N (w_U (run_system N boxsize c 2 2 ! 0))"
    using applyBoundaryConditions_mpi_cell[OF is_grid_calculateLaplacian[OF
          is_grid_calculateLaplacian[OF is_grid_alloc[of 128 N 0]]]]
    by (simp add: run_system_two) (simp add: N_def)
  then have l: "length (w_U (run_system N boxsize c 2 2 ! 0)) = 128"
    by (simp add: is_grid_iff)
  show ?thesis
    unfolding v0 v1 v2 v3 mult_cancel_left using d n l by blast
qed

text \<open>
  C2, amended: in the distributed variant no rows are exchanged on any time step. For
  every \<open>N\<close>, every number \<open>size\<close> of processes, every rank \<open>r < size\<close> and every number \<open>k\<close>
  of completed steps: the field \<open>U\<close> of the process has exactly \<open>local_N = N div size\<close> rows
  of \<open>N\<close> columns, none of them a ghost row; its next locals are the loop body applied to
  its own locals; its field is the field of the process of rank \<open>0\<close>, whatever its rank or
  its neighbours; in its first and in its last row every inner column \<open>1 \<le> j < N-1\<close> is
  still \<open>0.0\<close>; and after step \<open>k+1\<close> column \<open>0\<close> of every local row \<open>i\<close> holds the source term
  \<open>sin(20\<pi> * k * dt) * sin\<^sup>2(\<pi> * xlin[i])\<close> of the local index \<open>i\<close>.
\<close>

theorem no_halo_exchange:
  assumes r: "r < sz" and i: "i < n div sz" and j: "1 \<le> j" "j < n - 1"
  shows "w_local_N (run_system n bsz spd sz k ! r) = n div sz \<and>
         is_grid (n div sz) n (w_U (run_system n bsz spd sz k ! r)) \<and>
         run_system n bsz spd sz (Suc k) ! r =
           step_worker n (fac bsz n spd) (dt bsz n spd) (run_system n bsz spd sz k ! r) \<and>
         w_U (run_system n bsz spd sz k ! r) = w_U (run_system n bsz spd sz k ! 0) \<and>
         (i = 0 \<or> i = n div sz - 1 \<longrightarrow> w_U (run_system n bsz spd sz k ! r) ! i ! j = 0) \<and>
         w_U (run_system n bsz spd sz (Suc k) ! r) ! i ! 0 =
           sin (20 * pi * (real k * dt bsz n spd)) *
           (sin (pi * (0.5 * dx bsz n + real i * dx bsz n)))\<^sup>2"
proof -
  let ?w = "run_system n bsz spd sz k ! r"
  have inv: "band_inv n bsz sz (dt bsz n spd) k ?w"
    unfolding run_system_nth[OF r] by (rule band_inv_steps)
  have jn: "j < n" "0 < n" "i < n"
    using j i div_le_dividend[of n sz] by linarith+
  have l: "w_local_N ?w = n div sz" and g: "is_grid (n div sz) n (w_U ?w)"
    and gn: "is_grid (w_local_N ?w) n (w_Unew ?w)"
    and t: "w_t ?w = real k * dt bsz n spd" and x: "w_xlin ?w = init_xlin n bsz (replicate n 0)"
    using inv by (simp_all add: band_inv_def)
  have s: "run_system n bsz spd sz (Suc k) ! r =
      step_worker n (fac bsz n spd) (dt bsz n spd) ?w"
    by (simp add: run_system_nth[OF r])
  have e: "w_U ?w ! i ! j = 0" if "i = 0 \<or> i = n div sz - 1"
    using inv that i j jn by (simp add: band_inv_def)
  have il: "i < w_local_N ?w" using i l by simp
  have "w_U (step_worker n (fac bsz n spd) (dt bsz n spd) ?w) ! i ! 0 =
      source (w_t ?w) (w_xlin ?w) i"
    using step_worker_U_cell[OF gn il jn(2)] by simp
  then have c0: "w_U (run_system n bsz spd sz (Suc k) ! r) ! i ! 0 =
      sin (20 * pi * (real k * dt bsz n spd)) *
      (sin (pi * (0.5 * dx bsz n + real i * dx bsz n)))\<^sup>2"
    unfolding s t x using jn(3) by (simp add: source_def init_xlin_nth)
  show ?thesis
    using l g s run_system_rank_free(1)[OF r] e c0 by blast
qed

text \<open>
  C2, witness: the constants of the source with two processes, the process of rank \<open>1\<close>
  after two and after three steps, its last row \<open>127\<close> and its first row \<open>0\<close>. After three
  steps the field is again the field of rank \<open>0\<close>, and its last row and its first row differ
  in column \<open>0\<close>: the last row of process \<open>0\<close> is not the first row of process \<open>1\<close>.
\<close>

theorem no_halo_exchange_witness:
  "w_local_N (run_system N boxsize c 2 2 ! 1) = 128 \<and>
   w_U (run_system N boxsize c 2 2 ! 1) = w_U (run_system N boxsize c 2 2 ! 0) \<and>
   w_U (run_system N boxsize c 2 2 ! 1) ! 127 ! 1 = 0 \<and>
   w_U (run_system N boxsize c 2 3 ! 1) ! 127 ! 0 =
     sin (20 * pi * (2 * dt boxsize N c)) * (sin (255 * pi / 512))\<^sup>2 \<and>
   w_U (run_system N boxsize c 2 3 ! 1) ! 0 ! 0 =
     sin (20 * pi * (2 * dt boxsize N c)) * (sin (pi / 512))\<^sup>2 \<and>
   w_U (run_system N boxsize c 2 3 ! 1) = w_U (run_system N boxsize c 2 3 ! 0) \<and>
   w_U (run_system N boxsize c 2 3 ! 0) ! 127 ! 0 \<noteq> w_U (run_system N boxsize c 2 3 ! 1) ! 0 ! 0"
proof -
  have k: "(1::nat) < 2" "127 < N div 2" "0 < N div 2" "(1::nat) \<le> 1" "1 < N - 1" "N div 2 = 128"
    by (simp_all add: N_def)
  note a = no_halo_exchange[OF k(1) k(2) k(4) k(5), of boxsize c 2]
  note b = no_halo_exchange[OF k(1) k(3) k(4) k(5), of boxsize c 2]
  have x: "pi * (0.5 * dx boxsize N + real 0 * dx boxsize N) = pi / 512"
    "pi * (0.5 * dx boxsize N + real 127 * dx boxsize N) = 255 * pi / 512"
    by (simp_all add: dx_def boxsize_def N_def)
  note d3 = no_halo_exchange[OF k(1) k(2) k(4) k(5), of boxsize c 3]
  have three: "Suc 2 = 3" by simp
  note a1 = a[THEN conjunct1]
  note a4 = a[THEN conjunct2, THEN conjunct2, THEN conjunct2, THEN conjunct1]
  note a5 = a[THEN conjunct2, THEN conjunct2, THEN conjunct2, THEN conjunct2, THEN conjunct1]
  note a6 = a[THEN conjunct2, THEN conjunct2, THEN conjunct2, THEN conjunct2, THEN conjunct2]
  note b6 = b[THEN conjunct2, THEN conjunct2, THEN conjunct2, THEN conjunct2, THEN conjunct2]
  have l: "w_local_N (run_system N boxsize c 2 2 ! 1) = 128"
    using a1 k(6) by simp
  have e: "w_U (run_system N boxsize c 2 2 ! 1) = w_U (run_system N boxsize c 2 2 ! 0)"
    by (rule a4)
  have z: "w_U (run_system N boxsize c 2 2 ! 1) ! 127 ! 1 = 0"
    using a5 k(6) by simp
  have v1: "w_U (run_system N boxsize c 2 3 ! 1) ! 127 ! 0 =
     sin (20 * pi * (2 * dt boxsize N c)) * (sin (255 * pi / 512))\<^sup>2"
    using a6 unfolding three x by simp
  have v0: "w_U (run_system N boxsize c 2 3 ! 1) ! 0 ! 0 =
     sin (20 * pi * (2 * dt boxsize N c)) * (sin (pi / 512))\<^sup>2"
    using b6 unfolding three x by simp
  have e2: "20 * pi * (2 * dt boxsize N c) = (5 * sqrt 2 / 64) * pi"
    by (simp add: dt_def dx_def boxsize_def N_def c_def)
  have "0 < sqrt 2" "sqrt 2 < 256 / 181"
    using sqrt2_upper by simp_all
  then have "0 < (5 * sqrt 2 / 64) * pi" "(5 * sqrt 2 / 64) * pi < pi"
    using pi_gt_zero by simp_all
  then have "0 < sin ((5 * sqrt 2 / 64) * pi)"
    by (rule sin_gt_zero)
  then have n: "sin (20 * pi * (2 * dt boxsize N c)) \<noteq> 0"
    unfolding e2 by simp
  have "(sin (pi / 512))\<^sup>2 < (sin (255 * pi / 512))\<^sup>2"
    using pi_gt_zero by (intro sin_sq_less) simp_all
  then have d: "(sin (255 * pi / 512))\<^sup>2 \<noteq> (sin (pi / 512))\<^sup>2"
    by simp
  have e3: "w_U (run_system N boxsize c 2 3 ! 1) = w_U (run_system N boxsize c 2 3 ! 0)"
    by (rule d3[THEN conjunct2, THEN conjunct2, THEN conjunct2, THEN conjunct1])
  have "w_U (run_system N boxsize c 2 3 ! 1) ! 127 ! 0 \<noteq>
      w_U (run_system N boxsize c 2 3 ! 1) ! 0 ! 0"
    unfolding v1 v0 mult_cancel_left using n d by blast
  then have ne: "w_U (run_system N boxsize c 2 3 ! 0) ! 127 ! 0 \<noteq>
      w_U (run_system N boxsize c 2 3 ! 1) ! 0 ! 0"
    unfolding e3 .
  show ?thesis
    using l e z v1 v0 e3 ne by blast
qed


end
